theory Spec2Isabelle
  imports Main "HOL-Library.Sublist"
begin

section \<open>Python strings\<close>

text \<open>
  A Python \<open>str\<close> is a sequence of code points. The model uses HOL strings, so it covers
  the code points below 256; the character classes below are Python's on that range.
\<close>

definition py_isspace :: "char \<Rightarrow> bool" where
  "py_isspace c = (let n = (of_char c :: nat) in
     (9 \<le> n \<and> n \<le> 13) \<or> (28 \<le> n \<and> n \<le> 32) \<or> n = 133 \<or> n = 160)"

definition py_isupper_char :: "char \<Rightarrow> bool" where
  "py_isupper_char c = (let n = (of_char c :: nat) in
     (65 \<le> n \<and> n \<le> 90) \<or> (192 \<le> n \<and> n \<le> 214) \<or> (216 \<le> n \<and> n \<le> 222))"

definition py_isword :: "char \<Rightarrow> bool" where
  "py_isword c = (let n = (of_char c :: nat) in
     (48 \<le> n \<and> n \<le> 57) \<or> (65 \<le> n \<and> n \<le> 90) \<or> (97 \<le> n \<and> n \<le> 122) \<or> n = 95
     \<or> n = 170 \<or> n = 178 \<or> n = 179 \<or> n = 181 \<or> n = 185 \<or> n = 186
     \<or> (188 \<le> n \<and> n \<le> 190) \<or> (192 \<le> n \<and> n \<le> 214)
     \<or> (216 \<le> n \<and> n \<le> 246) \<or> (248 \<le> n \<and> n \<le> 255))"

definition py_lower_char :: "char \<Rightarrow> char" where
  "py_lower_char c = (if py_isupper_char c then char_of (of_char c + (32::nat)) else c)"

text \<open>
  \<open>str.upper\<close> on the letters whose upper case is a single code point below 256. (The
  code applies it to a captured run of hexadecimal digits and dashes only.)
\<close>

definition py_upper_char :: "char \<Rightarrow> char" where
  "py_upper_char c = (let n = (of_char c :: nat) in
     if (97 \<le> n \<and> n \<le> 122) \<or> (224 \<le> n \<and> n \<le> 246) \<or> (248 \<le> n \<and> n \<le> 254)
     then char_of (n - 32) else c)"

definition py_lower :: "string \<Rightarrow> string" where
  "py_lower s = map py_lower_char s"

definition py_upper :: "string \<Rightarrow> string" where
  "py_upper s = map py_upper_char s"

definition py_strip :: "string \<Rightarrow> string" where
  "py_strip s = rev (dropWhile py_isspace (rev (dropWhile py_isspace s)))"

text \<open>\<open>a or b\<close> on two optional strings: \<open>None\<close> and the empty string are falsy.\<close>

definition py_or_str :: "string option \<Rightarrow> string option \<Rightarrow> string option" where
  "py_or_str a b = (case a of Some s \<Rightarrow> if s \<noteq> [] then Some s else b | None \<Rightarrow> b)"

text \<open>\<open>s.replace(old, new)\<close>: every non-overlapping occurrence, leftmost first.\<close>

function replace_from :: "string \<Rightarrow> string \<Rightarrow> string \<Rightarrow> string" where
  "replace_from old new s =
     (if old = [] \<or> s = [] then s
      else if prefix old s then new @ replace_from old new (drop (length old) s)
      else hd s # replace_from old new (tl s))"
  by pat_completeness auto
termination
  by (relation "measure (\<lambda>(old, new, s). length s)") (auto simp: neq_Nil_conv)

declare replace_from.simps [simp del]

definition py_replace :: "string \<Rightarrow> string \<Rightarrow> string \<Rightarrow> string" where
  "py_replace s old new =
     (if old = [] then new @ concat (map (\<lambda>c. c # new) s) else replace_from old new s)"

text \<open>\<open>s.split(sep)\<close> for a one-character separator.\<close>

fun py_split :: "char \<Rightarrow> string \<Rightarrow> string list" where
  "py_split sep [] = [[]]"
| "py_split sep (c # cs) =
     (if c = sep then [] # py_split sep cs
      else (case py_split sep cs of [] \<Rightarrow> [[c]] | p # ps \<Rightarrow> (c # p) # ps))"

text \<open>\<open>sub in s\<close>.\<close>

fun py_contains :: "string \<Rightarrow> string \<Rightarrow> bool" where
  "py_contains sub [] = (sub = [])"
| "py_contains sub (c # cs) = (prefix sub (c # cs) \<or> py_contains sub cs)"

definition py_count_char :: "char \<Rightarrow> string \<Rightarrow> nat" where
  "py_count_char c s = length (filter (\<lambda>x. x = c) s)"

section \<open>Exceptions\<close>

text \<open>An exception is its class name and its text, \<open>str(e)\<close>.\<close>

datatype py_exception = PyExc (exc_class: string) (exc_text: string)

abbreviation FileNotFoundError :: "string \<Rightarrow> py_exception" where
  "FileNotFoundError msg \<equiv> PyExc ''FileNotFoundError'' msg"

abbreviation ValueError :: "string \<Rightarrow> py_exception" where
  "ValueError msg \<equiv> PyExc ''ValueError'' msg"

section \<open>Paths\<close>

text \<open>
  An absolute path is the list of its components below the filesystem root. A path given
  by a caller is relative to the workspace or absolute, as \<open>pathlib\<close> has it; joining an
  absolute path onto a directory yields the absolute path.
\<close>

type_synonym path = "string list"

datatype pypath = Rel "string list" | Abs path

definition join_with :: "string \<Rightarrow> string list \<Rightarrow> string" where
  "join_with sep xs = (case xs of [] \<Rightarrow> [] | y # ys \<Rightarrow> y @ concat (map (\<lambda>x. sep @ x) ys))"

definition path_str :: "path \<Rightarrow> string" where
  "path_str p = (if p = [] then ''/'' else concat (map (\<lambda>c. ''/'' @ c) p))"

fun pypath_str :: "pypath \<Rightarrow> string" where
  "pypath_str (Rel cs) = (if cs = [] then ''.'' else join_with ''/'' cs)"
| "pypath_str (Abs p) = path_str p"

fun path_join :: "path \<Rightarrow> pypath \<Rightarrow> path" where
  "path_join d (Rel cs) = d @ cs"
| "path_join d (Abs p) = p"

text \<open>\<open>Path(d) / s\<close> for a string \<open>s\<close>: empty and \<open>.\<close> components are dropped.\<close>

definition path_join_str :: "path \<Rightarrow> string \<Rightarrow> path" where
  "path_join_str d s =
     (let cs = filter (\<lambda>c. c \<noteq> [] \<and> c \<noteq> ''.'') (py_split (CHR ''/'') s)
      in if prefix ''/'' s then cs else d @ cs)"

definition path_parent :: "path \<Rightarrow> path" where
  "path_parent p = butlast p"

definition path_name :: "path \<Rightarrow> string" where
  "path_name p = (if p = [] then [] else last p)"

definition path_suffix :: "path \<Rightarrow> string" where
  "path_suffix p =
     (let n = path_name p; r = takeWhile (\<lambda>c. c \<noteq> CHR ''.'') (rev n)
      in if r \<noteq> [] \<and> length r + 1 < length n then CHR ''.'' # rev r else [])"

definition path_stem :: "path \<Rightarrow> string" where
  "path_stem p = (let n = path_name p in take (length n - length (path_suffix p)) n)"

definition path_with_suffix :: "path \<Rightarrow> string \<Rightarrow> py_exception + path" where
  "path_with_suffix p s =
     (if path_name p = [] then Inl (ValueError (path_str p @ '' has an empty name''))
      else Inr (path_parent p @ [path_stem p @ s]))"

section \<open>The operating system and the libraries\<close>

text \<open>
  The filesystem, the XML parser, the subprocess call, the JSON decoder and the expansion
  of a regular-expression template with escapes are library code. The program is modelled
  over any behaviour of theirs: a record of primitives on a state \<open>'fs\<close>. A primitive
  that can raise returns the exception; one that writes returns the new state as well.
\<close>

datatype element =
  Element (tag: string) (attrib: "(string \<times> string) list") (elem_text: "string option")
    (children: "element list")

record 'fs io =
  io_exists :: "'fs \<Rightarrow> path \<Rightarrow> bool"
  io_resolve :: "'fs \<Rightarrow> path \<Rightarrow> path"
  io_read_text :: "'fs \<Rightarrow> path \<Rightarrow> string \<Rightarrow> py_exception + string"
  io_write_text :: "'fs \<Rightarrow> path \<Rightarrow> string \<Rightarrow> py_exception option \<times> 'fs"
  io_mkdir_parents :: "'fs \<Rightarrow> path \<Rightarrow> py_exception option \<times> 'fs"
  io_move :: "'fs \<Rightarrow> path \<Rightarrow> path \<Rightarrow> py_exception option \<times> 'fs"
  io_et_parse :: "'fs \<Rightarrow> path \<Rightarrow> py_exception + element"
  io_run :: "'fs \<Rightarrow> string list \<Rightarrow> path \<Rightarrow> (py_exception + int \<times> string \<times> string) \<times> 'fs"
  io_json_loads :: "string \<Rightarrow> string option"
  io_re_template :: "string \<Rightarrow> py_exception + (string \<Rightarrow> string)"
  io_os_name :: string

section \<open>XML elements\<close>

fun elem_iter_all :: "element \<Rightarrow> element list" where
  "elem_iter_all (Element t a x cs) = Element t a x cs # concat (map elem_iter_all cs)"

text \<open>\<open>root.iter(tag)\<close>: the element and its descendants with that tag, in document order.\<close>

definition elem_iter :: "element \<Rightarrow> string \<Rightarrow> element list" where
  "elem_iter root t = filter (\<lambda>e. tag e = t) (elem_iter_all root)"

text \<open>\<open>elem.find(name)\<close> for a plain tag name: the first child with that tag.\<close>

definition elem_find :: "element \<Rightarrow> string \<Rightarrow> element option" where
  "elem_find e name = List.find (\<lambda>c. tag c = name) (children e)"

definition elem_get :: "element \<Rightarrow> string \<Rightarrow> string option" where
  "elem_get e k = map_of (attrib e) k"

text \<open>
  \<open>a or b\<close> on two optional elements. The truth value of an element is whether it has
  children; \<open>None\<close> is falsy.
\<close>

definition py_or_elem :: "element option \<Rightarrow> element option \<Rightarrow> element option" where
  "py_or_elem a b = (case a of Some e \<Rightarrow> if children e \<noteq> [] then Some e else b | None \<Rightarrow> b)"

section \<open>Solution and project model\<close>

datatype ProjectType = CLASS_LIBRARY | CONSOLE | WPF | TEST | UNKNOWN

record ProjectReference =
  ref_name :: string
  ref_path :: path

record PackageReference =
  pkg_name :: string
  pkg_version :: "string option"

record Project =
  proj_name :: string
  proj_path :: path
  guid :: "string option"
  target_framework :: "string option"
  project_type :: ProjectType
  project_references :: "ProjectReference list"
  package_references :: "PackageReference list"
  source_files :: "path list"
  root_namespace :: "string option"
  output_type :: "string option"

record Solution =
  sln_name :: string
  sln_path :: path
  projects :: "Project list"
  folders :: "(string \<times> string list) list"

section \<open>ProjectParser\<close>

definition MSBUILD_NS :: string where
  "MSBUILD_NS = ''{http://schemas.microsoft.com/developer/msbuild/2003}''"

definition TEST_PACKAGES :: "string set" where
  "TEST_PACKAGES = {''xunit'', ''xunit.runner.visualstudio'', ''nunit'', ''nunit3testadapter'',
     ''mstest.testframework'', ''mstest.testadapter'', ''microsoft.net.test.sdk''}"

definition has_suffix :: "string \<Rightarrow> string \<Rightarrow> bool" where
  "has_suffix s t = suffix t s"

definition has_sdk_import :: "element \<Rightarrow> bool" where
  "has_sdk_import root =
     list_ex (\<lambda>elem. has_suffix (tag elem) ''Import''
                \<and> (case elem_get elem ''Sdk'' of Some sdk \<Rightarrow> sdk \<noteq> [] | None \<Rightarrow> False))
       (elem_iter_all root)"

text \<open>
  One loop of \<open>_get_property\<close>: the first property group holding a child \<open>name\<close> with a
  non-empty text gives that text, stripped.
\<close>

fun first_property :: "string \<Rightarrow> element list \<Rightarrow> string option" where
  "first_property name [] = None"
| "first_property name (prop_group # rest) =
     (case elem_find prop_group name of
        Some elem \<Rightarrow>
          (case elem_text elem of
             Some t \<Rightarrow> if t \<noteq> [] then Some (py_strip t) else first_property name rest
           | None \<Rightarrow> first_property name rest)
      | None \<Rightarrow> first_property name rest)"

definition get_property :: "element \<Rightarrow> string \<Rightarrow> string option" where
  "get_property root name =
     (case first_property name (elem_iter root ''PropertyGroup'') of
        Some v \<Rightarrow> Some v
      | None \<Rightarrow> first_property (MSBUILD_NS @ name) (elem_iter root (MSBUILD_NS @ ''PropertyGroup'')))"

definition resolve_reference_path :: "'fs io \<Rightarrow> 'fs \<Rightarrow> path option \<Rightarrow> string \<Rightarrow> path option" where
  "resolve_reference_path os fs project_dir relative_path =
     (case project_dir of
        None \<Rightarrow> None
      | Some d \<Rightarrow>
          (let normalized_path = py_replace relative_path [CHR 0x5C] ''/'';
               full_path = io_resolve os fs (path_join_str d normalized_path)
           in if io_exists os fs full_path then Some full_path else None))"

definition project_reference_of :: "'fs io \<Rightarrow> 'fs \<Rightarrow> path option \<Rightarrow> element \<Rightarrow> ProjectReference option" where
  "project_reference_of os fs project_dir elem =
     (case elem_get elem ''Include'' of
        None \<Rightarrow> None
      | Some include \<Rightarrow>
          if include = [] then None
          else (case resolve_reference_path os fs project_dir include of
                  None \<Rightarrow> None
                | Some rp \<Rightarrow> Some \<lparr>ref_name = path_stem rp, ref_path = rp\<rparr>))"

definition parse_project_references :: "'fs io \<Rightarrow> 'fs \<Rightarrow> path option \<Rightarrow> element \<Rightarrow> ProjectReference list" where
  "parse_project_references os fs project_dir root =
     concat (map (\<lambda>t. List.map_filter (project_reference_of os fs project_dir) (elem_iter root t))
       [''ProjectReference'', MSBUILD_NS @ ''ProjectReference''])"

text \<open>
  The body of the loop of \<open>_parse_package_references\<close> for one element: the version is the
  attribute, or the text of the child found by
  \<open>elem.find('Version') or elem.find(NS + 'Version')\<close>.
\<close>

definition package_reference_of :: "element \<Rightarrow> PackageReference option" where
  "package_reference_of elem =
     (let name = elem_get elem ''Include'';
          version = elem_get elem ''Version'';
          version =
            (if version = None then
               (case py_or_elem (elem_find elem ''Version'') (elem_find elem (MSBUILD_NS @ ''Version'')) of
                  Some version_elem \<Rightarrow> elem_text version_elem
                | None \<Rightarrow> version)
             else version)
      in case name of
           Some n \<Rightarrow> if n \<noteq> [] then Some \<lparr>pkg_name = n, pkg_version = version\<rparr> else None
         | None \<Rightarrow> None)"

definition parse_package_references :: "element \<Rightarrow> PackageReference list" where
  "parse_package_references root =
     concat (map (\<lambda>t. List.map_filter package_reference_of (elem_iter root t))
       [''PackageReference'', MSBUILD_NS @ ''PackageReference''])"

definition determine_project_type :: "string option \<Rightarrow> PackageReference list \<Rightarrow> ProjectType" where
  "determine_project_type out_type packages =
     (let package_names = set (map (\<lambda>p. py_lower (pkg_name p)) packages)
      in if package_names \<inter> TEST_PACKAGES \<noteq> {} then TEST
         else (case out_type of
                 Some ot \<Rightarrow>
                   if ot \<noteq> [] then
                     (let output_lower = py_lower ot
                      in if output_lower = ''exe'' then CONSOLE
                         else if output_lower = ''winexe'' then WPF
                         else if output_lower = ''library'' then CLASS_LIBRARY
                         else UNKNOWN)
                   else UNKNOWN
               | None \<Rightarrow> UNKNOWN))"

text \<open>\<open>ProjectParser.parse\<close> from the parsed XML root on.\<close>

definition parse_root :: "'fs io \<Rightarrow> 'fs \<Rightarrow> path \<Rightarrow> element \<Rightarrow> Project" where
  "parse_root os fs csproj_path root =
     (let project_dir = Some (path_parent csproj_path);
          is_sdk_style = (elem_get root ''Sdk'' \<noteq> None \<or> has_sdk_import root);
          target_framework' =
            py_or_str (get_property root ''TargetFramework'') (get_property root ''TargetFrameworks'');
          root_namespace' = get_property root ''RootNamespace'';
          output_type' = get_property root ''OutputType'';
          project_references' = parse_project_references os fs project_dir root;
          package_references' = parse_package_references root;
          project_type' = determine_project_type output_type' package_references'
      in \<lparr>proj_name = path_stem csproj_path, proj_path = csproj_path, guid = None,
          target_framework = target_framework', project_type = project_type',
          project_references = project_references', package_references = package_references',
          source_files = [],
          root_namespace = py_or_str root_namespace' (Some (path_stem csproj_path)),
          output_type = output_type'\<rparr>)"

definition ProjectParser_parse :: "'fs io \<Rightarrow> 'fs \<Rightarrow> path \<Rightarrow> py_exception + Project" where
  "ProjectParser_parse os fs csproj_path =
     (if \<not> io_exists os fs csproj_path
      then Inl (FileNotFoundError (''Project file not found: '' @ path_str csproj_path))
      else if py_lower (path_suffix csproj_path) \<noteq> ''.csproj''
      then Inl (ValueError (''Not a project file: '' @ path_str csproj_path))
      else (case io_et_parse os fs csproj_path of
              Inl e \<Rightarrow>
                if exc_class e = ''ParseError''
                then Inl (ValueError (''Invalid XML in '' @ path_str csproj_path @ '': '' @ exc_text e))
                else Inl e
            | Inr root \<Rightarrow> Inr (parse_root os fs csproj_path root)))"

section \<open>Regular expressions\<close>

text \<open>
  The patterns of the program are values of \<open>rx\<close>; \<open>rmatch\<close> is the backtracking matcher
  of Python's \<open>re\<close>: from a position it returns every way the pattern can match, in the
  order the matcher tries them (greedy repetition takes one more round before it stops,
  the left alternative comes first), so the head of the list is the match \<open>re\<close> reports.
  A state is the text before the position (reversed), the text from the position on, and
  the groups captured so far.
\<close>

datatype rx =
  Cls "char \<Rightarrow> bool"
  | Bol
  | Eps
  | Seq rx rx
  | Alt rx rx
  | Opt rx
  | Star rx
  | Grp nat rx

record mstate =
  ms_before :: string
  ms_rest :: string
  ms_groups :: "(nat \<times> string) list"

fun star_iter :: "(mstate \<Rightarrow> mstate list) \<Rightarrow> nat \<Rightarrow> mstate \<Rightarrow> mstate list" where
  "star_iter f 0 st = [st]"
| "star_iter f (Suc n) st =
     concat (map (\<lambda>st'. if length (ms_rest st') < length (ms_rest st) then star_iter f n st' else [])
       (f st)) @ [st]"

primrec rmatch :: "rx \<Rightarrow> mstate \<Rightarrow> mstate list" where
  "rmatch (Cls P) = (\<lambda>st. case ms_rest st of
       [] \<Rightarrow> []
     | c # cs \<Rightarrow> if P c then [st\<lparr>ms_before := c # ms_before st, ms_rest := cs\<rparr>] else [])"
| "rmatch Bol = (\<lambda>st. case ms_before st of
       [] \<Rightarrow> [st]
     | c # cs \<Rightarrow> if c = CHR 0x0A then [st] else [])"
| "rmatch Eps = (\<lambda>st. [st])"
| "rmatch (Seq a b) = (\<lambda>st. concat (map (rmatch b) (rmatch a st)))"
| "rmatch (Alt a b) = (\<lambda>st. rmatch a st @ rmatch b st)"
| "rmatch (Opt a) = (\<lambda>st. rmatch a st @ [st])"
| "rmatch (Star a) = (\<lambda>st. star_iter (rmatch a) (length (ms_rest st)) st)"
| "rmatch (Grp n a) = (\<lambda>st.
     map (\<lambda>st'. st'\<lparr>ms_groups :=
            (n, take (length (ms_rest st) - length (ms_rest st')) (ms_rest st)) # ms_groups st'\<rparr>)
       (rmatch a st))"

definition Plus :: "rx \<Rightarrow> rx" where
  "Plus r = Seq r (Star r)"

definition rx_char :: "char \<Rightarrow> rx" where
  "rx_char c = Cls (\<lambda>x. x = c)"

text \<open>A literal string, as \<open>re.escape\<close> makes of any string.\<close>

definition rx_lit :: "string \<Rightarrow> rx" where
  "rx_lit s = foldr (\<lambda>c r. Seq (rx_char c) r) s Eps"

text \<open>A literal string under \<open>re.IGNORECASE\<close>.\<close>

definition rx_lit_ci :: "string \<Rightarrow> rx" where
  "rx_lit_ci s = foldr (\<lambda>c r. Seq (Cls (\<lambda>x. py_lower_char x = py_lower_char c)) r) s Eps"

definition rx_alts :: "string list \<Rightarrow> rx" where
  "rx_alts ws = (case rev ws of [] \<Rightarrow> Eps | l # ls \<Rightarrow> foldr (\<lambda>w r. Alt (rx_lit w) r) (rev ls) (rx_lit l))"

definition rx_seq :: "rx list \<Rightarrow> rx" where
  "rx_seq rs = foldr Seq rs Eps"

definition rx_space :: rx where
  "rx_space = Cls py_isspace"

definition rx_word :: rx where
  "rx_word = Cls py_isword"

definition rx_not :: "char \<Rightarrow> rx" where
  "rx_not c = Cls (\<lambda>x. x \<noteq> c)"

text \<open>A match object: \<open>start()\<close>, \<open>group(0)\<close> and the numbered groups that took part.\<close>

record rmatch_obj =
  m_start :: nat
  m_text :: string
  m_groups :: "(nat \<times> string) list"

definition m_group :: "rmatch_obj \<Rightarrow> nat \<Rightarrow> string option" where
  "m_group m n = map_of (m_groups m) n"

definition match_here :: "rx \<Rightarrow> string \<Rightarrow> string \<Rightarrow> rmatch_obj option" where
  "match_here r bef s =
     (case rmatch r \<lparr>ms_before = bef, ms_rest = s, ms_groups = []\<rparr> of
        [] \<Rightarrow> None
      | st # _ \<Rightarrow> Some \<lparr>m_start = length bef,
                         m_text = take (length s - length (ms_rest st)) s,
                         m_groups = ms_groups st\<rparr>)"

text \<open>
  \<open>pattern.finditer(s)\<close>: the leftmost match, then the search goes on behind it. The first
  argument counts the characters of the last match that are still to be skipped. (After
  an empty match the search moves on by one character; no pattern of the program matches
  the empty string.)
\<close>

fun finditer_from :: "rx \<Rightarrow> nat \<Rightarrow> string \<Rightarrow> string \<Rightarrow> rmatch_obj list" where
  "finditer_from r k bef [] =
     (if k = 0 then (case match_here r bef [] of None \<Rightarrow> [] | Some m \<Rightarrow> [m]) else [])"
| "finditer_from r (Suc k) bef (c # cs) = finditer_from r k (c # bef) cs"
| "finditer_from r 0 bef (c # cs) =
     (case match_here r bef (c # cs) of
        None \<Rightarrow> finditer_from r 0 (c # bef) cs
      | Some m \<Rightarrow> m # finditer_from r (length (m_text m) - 1) (c # bef) cs)"

definition finditer :: "rx \<Rightarrow> string \<Rightarrow> rmatch_obj list" where
  "finditer r s = finditer_from r 0 [] s"

text \<open>\<open>pattern.search(s)\<close>.\<close>

definition re_search :: "rx \<Rightarrow> string \<Rightarrow> rmatch_obj option" where
  "re_search r s = (case finditer r s of [] \<Rightarrow> None | m # _ \<Rightarrow> Some m)"

text \<open>
  \<open>re.sub(pattern, repl, s)\<close> once the template is expanded: \<open>f\<close> gives the replacement
  of a matched text.
\<close>

fun sub_from :: "rx \<Rightarrow> (string \<Rightarrow> string) \<Rightarrow> nat \<Rightarrow> string \<Rightarrow> string \<Rightarrow> string" where
  "sub_from r f k bef [] =
     (if k = 0 then (case match_here r bef [] of None \<Rightarrow> [] | Some m \<Rightarrow> f (m_text m)) else [])"
| "sub_from r f (Suc k) bef (c # cs) = sub_from r f k (c # bef) cs"
| "sub_from r f 0 bef (c # cs) =
     (case match_here r bef (c # cs) of
        None \<Rightarrow> c # sub_from r f 0 (c # bef) cs
      | Some m \<Rightarrow>
          if m_text m = [] then f [] @ c # sub_from r f 0 (c # bef) cs
          else f (m_text m) @ sub_from r f (length (m_text m) - 1) (c # bef) cs)"

text \<open>
  A template without a backslash stands for itself. One with a backslash is expanded by
  the library, which raises \<open>re.error\<close> on a bad escape before any match is tried.
\<close>

definition re_sub :: "'fs io \<Rightarrow> rx \<Rightarrow> string \<Rightarrow> string \<Rightarrow> py_exception + string" where
  "re_sub os r repl s =
     (if CHR 0x5C \<in> set repl
      then (case io_re_template os repl of
              Inl e \<Rightarrow> Inl e
            | Inr f \<Rightarrow> Inr (sub_from r f 0 [] s))
      else Inr (sub_from r (\<lambda>_. repl) 0 [] s))"

section \<open>SolutionParser\<close>

definition dq :: char where
  "dq = CHR 0x22"

definition rx_hex :: rx where
  "rx_hex = Cls (\<lambda>c. c \<in> set ''ABCDEFabcdef0123456789-'')"

text \<open>
  \<open>Project\("\{([A-F0-9-]+)\}"\)\s*=\s*"([^"]+)"\s*,\s*"([^"]+)"\s*,\s*"\{([A-F0-9-]+)\}"\<close>
  under \<open>re.IGNORECASE\<close>.
\<close>

definition PROJECT_PATTERN :: rx where
  "PROJECT_PATTERN = rx_seq
     [rx_lit_ci (''Project('' @ [dq] @ ''{''), Grp 1 (Plus rx_hex), rx_lit_ci (''}'' @ [dq] @ '')''),
      Star rx_space, rx_char (CHR ''=''), Star rx_space,
      rx_char dq, Grp 2 (Plus (rx_not dq)), rx_char dq,
      Star rx_space, rx_char (CHR '',''), Star rx_space,
      rx_char dq, Grp 3 (Plus (rx_not dq)), rx_char dq,
      Star rx_space, rx_char (CHR '',''), Star rx_space,
      rx_lit_ci ([dq] @ ''{''), Grp 4 (Plus rx_hex), rx_lit_ci (''}'' @ [dq])]"

definition SOLUTION_FOLDER_GUID :: string where
  "SOLUTION_FOLDER_GUID = ''2150E333-8FDC-42A3-9474-1A3956D46DE8''"

text \<open>A group of \<open>match.groups()\<close>; every group of \<open>PROJECT_PATTERN\<close> takes part in a match.\<close>

definition m_group_str :: "rmatch_obj \<Rightarrow> nat \<Rightarrow> string" where
  "m_group_str m n = (case m_group m n of Some g \<Rightarrow> g | None \<Rightarrow> [])"

definition resolve_project_path ::
  "'fs io \<Rightarrow> 'fs \<Rightarrow> path option \<Rightarrow> string \<Rightarrow> py_exception + path option" where
  "resolve_project_path os fs solution_dir relative_path =
     (case solution_dir of
        None \<Rightarrow> Inr None
      | Some d \<Rightarrow>
          (let normalized_path = py_replace relative_path [CHR 0x5C] ''/'';
               full_path = path_join_str d normalized_path
           in if io_exists os fs full_path then Inr (Some (io_resolve os fs full_path))
              else if path_suffix full_path = [] then
                (case path_with_suffix full_path ''.csproj'' of
                   Inl e \<Rightarrow> Inl e
                 | Inr csproj_path \<Rightarrow>
                     if io_exists os fs csproj_path then Inr (Some (io_resolve os fs csproj_path))
                     else Inr None)
              else Inr None))"

definition new_project :: "string \<Rightarrow> path \<Rightarrow> string \<Rightarrow> Project" where
  "new_project name p g =
     \<lparr>proj_name = name, proj_path = p, guid = Some g, target_framework = None,
      project_type = UNKNOWN, project_references = [], package_references = [],
      source_files = [], root_namespace = None, output_type = None\<rparr>"

text \<open>The loop of \<open>_parse_projects\<close> over the matches, with the list built so far.\<close>

fun parse_projects_loop ::
  "'fs io \<Rightarrow> 'fs \<Rightarrow> path option \<Rightarrow> rmatch_obj list \<Rightarrow> Project list \<Rightarrow> py_exception + Project list" where
  "parse_projects_loop os fs solution_dir [] acc = Inr acc"
| "parse_projects_loop os fs solution_dir (m # ms) acc =
     (let type_guid = m_group_str m 1; name = m_group_str m 2;
          relative_path = m_group_str m 3; project_guid = m_group_str m 4
      in if py_upper type_guid = SOLUTION_FOLDER_GUID
         then parse_projects_loop os fs solution_dir ms acc
         else (case resolve_project_path os fs solution_dir relative_path of
                 Inl e \<Rightarrow> Inl e
               | Inr None \<Rightarrow> parse_projects_loop os fs solution_dir ms acc
               | Inr (Some project_path) \<Rightarrow>
                   parse_projects_loop os fs solution_dir ms
                     (acc @ [new_project name project_path project_guid])))"

definition parse_projects ::
  "'fs io \<Rightarrow> 'fs \<Rightarrow> path option \<Rightarrow> string \<Rightarrow> py_exception + Project list" where
  "parse_projects os fs solution_dir content =
     parse_projects_loop os fs solution_dir (finditer PROJECT_PATTERN content) []"

definition SolutionParser_parse :: "'fs io \<Rightarrow> 'fs \<Rightarrow> path \<Rightarrow> py_exception + Solution" where
  "SolutionParser_parse os fs sln =
     (if \<not> io_exists os fs sln
      then Inl (FileNotFoundError (''Solution file not found: '' @ path_str sln))
      else if py_lower (path_suffix sln) \<noteq> ''.sln''
      then Inl (ValueError (''Not a solution file: '' @ path_str sln))
      else (case io_read_text os fs sln ''utf-8-sig'' of
              Inl e \<Rightarrow> Inl e
            | Inr content \<Rightarrow>
                (case parse_projects os fs (Some (path_parent sln)) content of
                   Inl e \<Rightarrow> Inl e
                 | Inr ps \<Rightarrow>
                     Inr \<lparr>sln_name = path_stem sln, sln_path = sln, projects = ps, folders = []\<rparr>)))"

section \<open>FileScanner\<close>

datatype MemberType = CLASS | INTERFACE | STRUCT | ENUM | RECORD | DELEGATE

datatype TestFramework = XUNIT | NUNIT | MSTEST | UNKNOWN_FRAMEWORK

record TestInfo =
  test_name :: string
  test_class_name :: string
  framework :: TestFramework
  is_theory :: bool
  traits :: "string list"
  test_line_number :: nat

record ClassInfo =
  class_name :: string
  class_namespace :: "string option"
  member_type :: MemberType
  base_class :: "string option"
  interfaces :: "string list"
  is_public :: bool
  is_abstract :: bool
  is_static :: bool
  is_partial :: bool
  is_sealed :: bool
  line_number :: nat
  tests :: "TestInfo list"

text \<open>
  \<open>^\s*(?:(?:public|private|protected|internal)\s+)?(?:(?:abstract|sealed|static|partial)\s+)*\<close>
  \<open>(class|interface|struct|enum|record)\s+(\w+)(?:<[^>]+>)?(?:\s*:\s*([^{]+))?\<close>
  under \<open>re.MULTILINE\<close>.
\<close>

definition TYPE_PATTERN :: rx where
  "TYPE_PATTERN = rx_seq
     [Bol, Star rx_space,
      Opt (Seq (rx_alts [''public'', ''private'', ''protected'', ''internal'']) (Plus rx_space)),
      Star (Seq (rx_alts [''abstract'', ''sealed'', ''static'', ''partial'']) (Plus rx_space)),
      Grp 1 (rx_alts [''class'', ''interface'', ''struct'', ''enum'', ''record'']),
      Plus rx_space,
      Grp 2 (Plus rx_word),
      Opt (rx_seq [rx_char (CHR ''<''), Plus (rx_not (CHR ''>'')), rx_char (CHR ''>'')]),
      Opt (rx_seq [Star rx_space, rx_char (CHR '':''), Star rx_space, Grp 3 (Plus (rx_not (CHR ''{'')))])]"

definition attr_pattern :: "string \<Rightarrow> rx" where
  "attr_pattern name = rx_seq
     [rx_lit (''['' @ name),
      Opt (rx_seq [rx_char (CHR ''(''), Star (rx_not (CHR '')'')), rx_char (CHR '')'')]),
      rx_char (CHR '']'')]"

definition XUNIT_FACT_PATTERN :: rx where "XUNIT_FACT_PATTERN = attr_pattern ''Fact''"
definition XUNIT_THEORY_PATTERN :: rx where "XUNIT_THEORY_PATTERN = attr_pattern ''Theory''"
definition NUNIT_TEST_PATTERN :: rx where "NUNIT_TEST_PATTERN = attr_pattern ''Test''"
definition NUNIT_TESTCASE_PATTERN :: rx where "NUNIT_TESTCASE_PATTERN = attr_pattern ''TestCase''"
definition MSTEST_PATTERN :: rx where "MSTEST_PATTERN = attr_pattern ''TestMethod''"

text \<open>
  \<open>^\s*(?:(?:public|private|protected|internal)\s+)?(?:(?:async|virtual|override|static|abstract)\s+)*\<close>
  \<open>(?:Task\s+|void\s+|[\w<>[\],\s]+\s+)(\w+)\s*\(\<close> under \<open>re.MULTILINE\<close>.
\<close>

definition METHOD_PATTERN :: rx where
  "METHOD_PATTERN = rx_seq
     [Bol, Star rx_space,
      Opt (Seq (rx_alts [''public'', ''private'', ''protected'', ''internal'']) (Plus rx_space)),
      Star (Seq (rx_alts [''async'', ''virtual'', ''override'', ''static'', ''abstract'']) (Plus rx_space)),
      Alt (Seq (rx_lit ''Task'') (Plus rx_space))
        (Alt (Seq (rx_lit ''void'') (Plus rx_space))
           (Seq (Plus (Cls (\<lambda>c. py_isword c \<or> c \<in> set ''<>[],'' \<or> py_isspace c))) (Plus rx_space))),
      Grp 1 (Plus rx_word), Star rx_space, rx_char (CHR ''('')]"

text \<open>\<open>\[Trait\s*\(\s*"([^"]+)"\s*,\s*"([^"]+)"\s*\)\]\<close>\<close>

definition TRAIT_PATTERN :: rx where
  "TRAIT_PATTERN = rx_seq
     [rx_lit ''[Trait'', Star rx_space, rx_char (CHR ''(''), Star rx_space,
      rx_char dq, Grp 1 (Plus (rx_not dq)), rx_char dq,
      Star rx_space, rx_char (CHR '',''), Star rx_space,
      rx_char dq, Grp 2 (Plus (rx_not dq)), rx_char dq,
      Star rx_space, rx_lit '')]'']"

text \<open>\<open><[^>]+>\<close>\<close>

definition GENERIC_ARGS :: rx where
  "GENERIC_ARGS = rx_seq [rx_char (CHR ''<''), Plus (rx_not (CHR ''>'')), rx_char (CHR ''>'')]"

text \<open>\<open>MemberType(s)\<close>: the member of the enumeration with that value, or \<open>ValueError\<close>.\<close>

definition MemberType_of :: "string \<Rightarrow> py_exception + MemberType" where
  "MemberType_of s =
     (if s = ''class'' then Inr CLASS
      else if s = ''interface'' then Inr INTERFACE
      else if s = ''struct'' then Inr STRUCT
      else if s = ''enum'' then Inr ENUM
      else if s = ''record'' then Inr RECORD
      else if s = ''delegate'' then Inr DELEGATE
      else Inl (ValueError (s @ '' is not a valid MemberType'')))"

text \<open>The framework and the theory flag that the pending attributes give, last one wins.\<close>

fun attrs_loop :: "(string \<times> string) list \<Rightarrow> TestFramework \<times> bool \<Rightarrow> TestFramework \<times> bool" where
  "attrs_loop [] acc = acc"
| "attrs_loop ((fw, attr_type) # rest) (fwk, theory) =
     (if fw = ''xunit'' then attrs_loop rest (XUNIT, attr_type = ''theory'')
      else if fw = ''nunit'' then attrs_loop rest (NUNIT, attr_type = ''testcase'')
      else if fw = ''mstest'' then attrs_loop rest (MSTEST, theory)
      else attrs_loop rest (fwk, theory))"

definition line_attributes :: "string \<Rightarrow> (string \<times> string) list" where
  "line_attributes line =
     (if re_search XUNIT_FACT_PATTERN line \<noteq> None then [(''xunit'', ''fact'')] else [])
     @ (if re_search XUNIT_THEORY_PATTERN line \<noteq> None then [(''xunit'', ''theory'')] else [])
     @ (if re_search NUNIT_TEST_PATTERN line \<noteq> None then [(''nunit'', ''test'')] else [])
     @ (if re_search NUNIT_TESTCASE_PATTERN line \<noteq> None then [(''nunit'', ''testcase'')] else [])
     @ (if re_search MSTEST_PATTERN line \<noteq> None then [(''mstest'', ''test'')] else [])"

text \<open>
  The loop of \<open>_extract_tests_for_class\<close> over the lines: the number of the line, whether
  the class line is passed, the brace count, the pending attributes and the tests so far.
\<close>

fun tests_loop ::
  "string \<Rightarrow> nat \<Rightarrow> nat \<Rightarrow> string list \<Rightarrow> bool \<Rightarrow> int \<Rightarrow> (string \<times> string) list \<Rightarrow> TestInfo list
     \<Rightarrow> TestInfo list" where
  "tests_loop cname class_line line_num [] in_class brace_count current_attributes acc = acc"
| "tests_loop cname class_line line_num (line # rest) in_class brace_count current_attributes acc =
     (if line_num = class_line
      then tests_loop cname class_line (line_num + 1) rest True brace_count current_attributes acc
      else if \<not> in_class
      then tests_loop cname class_line (line_num + 1) rest in_class brace_count current_attributes acc
      else
        (let brace_count' = brace_count + int (py_count_char (CHR ''{'') line)
                              - int (py_count_char (CHR ''}'') line)
         in if brace_count' < 0 then acc
            else
              (let attrs = current_attributes @ line_attributes line;
                   line_traits = map (\<lambda>m. m_group_str m 1 @ '':'' @ m_group_str m 2)
                                   (finditer TRAIT_PATTERN line)
               in case re_search METHOD_PATTERN line of
                    Some method_match \<Rightarrow>
                      if attrs \<noteq> [] then
                        (let (fwk, theory) = attrs_loop attrs (UNKNOWN_FRAMEWORK, False);
                             test_info = \<lparr>test_name = m_group_str method_match 1,
                                          test_class_name = cname, framework = fwk,
                                          is_theory = theory, traits = line_traits,
                                          test_line_number = line_num\<rparr>
                         in tests_loop cname class_line (line_num + 1) rest in_class brace_count' []
                              (acc @ [test_info]))
                      else tests_loop cname class_line (line_num + 1) rest in_class brace_count' attrs acc
                  | None \<Rightarrow>
                      tests_loop cname class_line (line_num + 1) rest in_class brace_count' attrs acc)))"

definition extract_tests_for_class :: "string \<Rightarrow> string \<Rightarrow> nat \<Rightarrow> TestInfo list" where
  "extract_tests_for_class content cname class_line =
     tests_loop cname class_line 1 (py_split (CHR 0x0A) content) False 0 [] []"

text \<open>The loop over the parts of the inheritance clause: the base class and the interfaces.\<close>

fun inheritance_loop ::
  "MemberType \<Rightarrow> string list \<Rightarrow> string option \<times> string list \<Rightarrow> string option \<times> string list" where
  "inheritance_loop mt [] acc = acc"
| "inheritance_loop mt (part # rest) (base, ifaces) =
     (let simple_name = py_strip (sub_from GENERIC_ARGS (\<lambda>_. []) 0 [] part)
      in if prefix ''I'' simple_name \<and> list_all py_isupper_char (take 1 (drop 1 simple_name))
            \<and> take 1 (drop 1 simple_name) \<noteq> []
         then inheritance_loop mt rest (base, ifaces @ [part])
         else if base = None \<and> mt = CLASS
         then inheritance_loop mt rest (Some part, ifaces)
         else inheritance_loop mt rest (base, ifaces))"

text \<open>The body of the loop of \<open>_extract_classes\<close> for one match.\<close>

definition class_info_of_match :: "string \<Rightarrow> string option \<Rightarrow> rmatch_obj \<Rightarrow> py_exception + ClassInfo" where
  "class_info_of_match content namespace m =
     (let member_type_str = m_group_str m 1; name = m_group_str m 2; inheritance = m_group m 3
      in case MemberType_of (py_lower member_type_str) of
           Inl e \<Rightarrow> Inl e
         | Inr mt \<Rightarrow>
             (let (base, ifaces) =
                    (case inheritance of
                       Some inh \<Rightarrow>
                         if inh \<noteq> [] then
                           inheritance_loop mt (map py_strip (py_split (CHR '','') inh)) (None, [])
                         else (None, [])
                     | None \<Rightarrow> (None, []));
                  line = py_count_char (CHR 0x0A) (take (m_start m) content) + 1;
                  match_text = m_text m;
                  tests' = extract_tests_for_class content name line
              in Inr \<lparr>class_name = name, class_namespace = namespace, member_type = mt,
                      base_class = base, interfaces = ifaces,
                      is_public = py_contains ''public'' match_text,
                      is_abstract = py_contains ''abstract'' match_text,
                      is_static = py_contains ''static'' match_text,
                      is_partial = py_contains ''partial'' match_text,
                      is_sealed = py_contains ''sealed'' match_text,
                      line_number = line, tests = tests'\<rparr>))"

fun extract_classes_loop ::
  "string \<Rightarrow> string option \<Rightarrow> rmatch_obj list \<Rightarrow> ClassInfo list \<Rightarrow> py_exception + ClassInfo list" where
  "extract_classes_loop content namespace [] acc = Inr acc"
| "extract_classes_loop content namespace (m # ms) acc =
     (case class_info_of_match content namespace m of
        Inl e \<Rightarrow> Inl e
      | Inr class_info \<Rightarrow> extract_classes_loop content namespace ms (acc @ [class_info]))"

definition extract_classes :: "string \<Rightarrow> string option \<Rightarrow> py_exception + ClassInfo list" where
  "extract_classes content namespace =
     extract_classes_loop content namespace (finditer TYPE_PATTERN content) []"

section \<open>MigrationEngine\<close>

record MigrationResult =
  success :: bool
  message :: string
  details :: "string option"

definition result :: "bool \<Rightarrow> string \<Rightarrow> MigrationResult" where
  "result ok msg = \<lparr>success = ok, message = msg, details = None\<rparr>"

record MigrationEngine =
  workspace_root :: path
  dry_run :: bool
  cli_path :: "path option"



text \<open>
  \<open>try: ... except Exception as e: return MigrationResult(False, f"<prefix>{e}")\<close>: the
  block gives an exception or the result it returns, and the state it has reached.
\<close>

definition try_except ::
  "(py_exception + MigrationResult) \<times> 'fs \<Rightarrow> string \<Rightarrow> MigrationResult \<times> 'fs" where
  "try_except block pre =
     (case block of
        (Inl e, fs') \<Rightarrow> (result False (pre @ exc_text e), fs')
      | (Inr r, fs') \<Rightarrow> (r, fs'))"

text \<open>The block of \<open>move_folder\<close> and of \<open>move_file\<close>.\<close>

definition move_block ::
  "'fs io \<Rightarrow> 'fs \<Rightarrow> path \<Rightarrow> path \<Rightarrow> string \<Rightarrow> (py_exception + MigrationResult) \<times> 'fs" where
  "move_block os fs source_abs target_abs done_msg =
     (case io_mkdir_parents os fs (path_parent target_abs) of
        (Some e, fs1) \<Rightarrow> (Inl e, fs1)
      | (None, fs1) \<Rightarrow>
          (case io_move os fs1 source_abs target_abs of
             (Some e, fs2) \<Rightarrow> (Inl e, fs2)
           | (None, fs2) \<Rightarrow> (Inr (result True done_msg), fs2)))"

definition move_folder ::
  "'fs io \<Rightarrow> MigrationEngine \<Rightarrow> 'fs \<Rightarrow> pypath \<Rightarrow> pypath \<Rightarrow> MigrationResult \<times> 'fs" where
  "move_folder os self fs source target =
     (let source_abs = path_join (workspace_root self) source;
          target_abs = path_join (workspace_root self) target
      in if \<not> io_exists os fs source_abs
         then (result False (''Source folder does not exist: '' @ pypath_str source), fs)
         else if io_exists os fs target_abs
         then (result False (''Target folder already exists: '' @ pypath_str target), fs)
         else if dry_run self
         then (result True (''[DRY RUN] Would move: '' @ pypath_str source @ '' -> '' @ pypath_str target), fs)
         else try_except
                (move_block os fs source_abs target_abs
                   (''Moved: '' @ pypath_str source @ '' -> '' @ pypath_str target))
                ''Failed to move folder: '')"

definition move_file ::
  "'fs io \<Rightarrow> MigrationEngine \<Rightarrow> 'fs \<Rightarrow> pypath \<Rightarrow> pypath \<Rightarrow> MigrationResult \<times> 'fs" where
  "move_file os self fs source target =
     (let source_abs = path_join (workspace_root self) source;
          target_abs = path_join (workspace_root self) target
      in if \<not> io_exists os fs source_abs
         then (result False (''Source file does not exist: '' @ pypath_str source), fs)
         else if io_exists os fs target_abs
         then (result False (''Target file already exists: '' @ pypath_str target), fs)
         else if dry_run self
         then (result True (''[DRY RUN] Would move: '' @ pypath_str source @ '' -> '' @ pypath_str target), fs)
         else try_except
                (move_block os fs source_abs target_abs
                   (''Moved: '' @ pypath_str source @ '' -> '' @ pypath_str target))
                ''Failed to move file: '')"

text \<open>
  The end of the three rewriting blocks: the file is written when the text has changed.
\<close>

definition write_if_changed ::
  "'fs io \<Rightarrow> 'fs \<Rightarrow> path \<Rightarrow> string \<Rightarrow> string \<Rightarrow> string \<Rightarrow> string
     \<Rightarrow> (py_exception + MigrationResult) \<times> 'fs" where
  "write_if_changed os fs file_abs content updated changed_msg same_msg =
     (if content \<noteq> updated
      then (case io_write_text os fs file_abs updated of
              (Some e, fs') \<Rightarrow> (Inl e, fs')
            | (None, fs') \<Rightarrow> (Inr (result True changed_msg), fs'))
      else (Inr (result True same_msg), fs))"

definition update_project_reference_block ::
  "'fs io \<Rightarrow> 'fs \<Rightarrow> path \<Rightarrow> pypath \<Rightarrow> string \<Rightarrow> string \<Rightarrow> (py_exception + MigrationResult) \<times> 'fs" where
  "update_project_reference_block os fs project_abs project_path old_ref new_ref =
     (case io_read_text os fs project_abs ''utf-8'' of
        Inl e \<Rightarrow> (Inl e, fs)
      | Inr content \<Rightarrow>
          (let updated = py_replace content old_ref new_ref
           in write_if_changed os fs project_abs content updated
                (''Updated reference in '' @ pypath_str project_path)
                (''No changes needed in '' @ pypath_str project_path)))"

definition update_project_reference ::
  "'fs io \<Rightarrow> MigrationEngine \<Rightarrow> 'fs \<Rightarrow> pypath \<Rightarrow> string \<Rightarrow> string \<Rightarrow> MigrationResult \<times> 'fs" where
  "update_project_reference os self fs project_path old_ref new_ref =
     (let project_abs = path_join (workspace_root self) project_path
      in if \<not> io_exists os fs project_abs
         then (result False (''Project file does not exist: '' @ pypath_str project_path), fs)
         else if dry_run self
         then (result True (''[DRY RUN] Would update reference in '' @ pypath_str project_path), fs)
         else try_except
                (update_project_reference_block os fs project_abs project_path old_ref new_ref)
                ''Failed to update reference: '')"

definition update_solution_project_path_block ::
  "'fs io \<Rightarrow> 'fs \<Rightarrow> path \<Rightarrow> pypath \<Rightarrow> string \<Rightarrow> string \<Rightarrow> (py_exception + MigrationResult) \<times> 'fs" where
  "update_solution_project_path_block os fs solution_abs solution_path old_path new_path =
     (case io_read_text os fs solution_abs ''utf-8'' of
        Inl e \<Rightarrow> (Inl e, fs)
      | Inr content \<Rightarrow>
          (let old_normalized = py_replace old_path ''/'' [CHR 0x5C];
               new_normalized = py_replace new_path ''/'' [CHR 0x5C];
               updated = py_replace content old_normalized new_normalized;
               updated =
                 (if content = updated
                  then (let old_forward = py_replace old_path [CHR 0x5C] ''/'';
                            new_forward = py_replace new_path [CHR 0x5C] ''/''
                        in py_replace content old_forward new_forward)
                  else updated)
           in write_if_changed os fs solution_abs content updated
                (''Updated project path in '' @ pypath_str solution_path)
                (''No changes needed in '' @ pypath_str solution_path)))"

definition update_solution_project_path ::
  "'fs io \<Rightarrow> MigrationEngine \<Rightarrow> 'fs \<Rightarrow> pypath \<Rightarrow> string \<Rightarrow> string \<Rightarrow> MigrationResult \<times> 'fs" where
  "update_solution_project_path os self fs solution_path old_path new_path =
     (let solution_abs = path_join (workspace_root self) solution_path
      in if \<not> io_exists os fs solution_abs
         then (result False (''Solution file does not exist: '' @ pypath_str solution_path), fs)
         else if dry_run self
         then (result True (''[DRY RUN] Would update solution '' @ pypath_str solution_path), fs)
         else try_except
                (update_solution_project_path_block os fs solution_abs solution_path old_path new_path)
                ''Failed to update solution: '')"

text \<open>
  \<open>_call_cli\<close>: the command is the binary, or \<open>dotnet run\<close> on the project; its own
  \<open>try\<close> turns an exception of the call into a failed result.
\<close>

definition call_cli ::
  "'fs io \<Rightarrow> MigrationEngine \<Rightarrow> 'fs \<Rightarrow> string list \<Rightarrow> MigrationResult \<times> 'fs" where
  "call_cli os self fs args =
     (case cli_path self of
        None \<Rightarrow> (result False ''.NET CLI not found'', fs)
      | Some cli \<Rightarrow>
          (let cmd = (if path_suffix cli = ''.exe'' \<or> path_suffix cli = []
                      then [path_str cli] @ args
                      else [''dotnet'', ''run'', ''--project'', path_str cli, ''--''] @ args)
           in case io_run os fs cmd (workspace_root self) of
                (Inl e, fs') \<Rightarrow> (result False (''Failed to call CLI: '' @ exc_text e), fs')
              | (Inr (returncode, out, err), fs') \<Rightarrow>
                  if returncode = 0
                  then (case io_json_loads os out of
                          Some output \<Rightarrow>
                            (\<lparr>success = True, message = ''CLI command succeeded'',
                              details = Some output\<rparr>, fs')
                        | None \<Rightarrow> (result True out, fs'))
                  else (result False (''CLI error: '' @ err), fs')))"

text \<open>\<open>rf'namespace\s+{re.escape(old_namespace)}'\<close> and the same for \<open>using\<close>.\<close>

definition keyword_rx :: "string \<Rightarrow> string \<Rightarrow> rx" where
  "keyword_rx kw old_namespace = rx_seq [rx_lit kw, Plus rx_space, rx_lit old_namespace]"

definition rename_namespace_block ::
  "'fs io \<Rightarrow> 'fs \<Rightarrow> path \<Rightarrow> pypath \<Rightarrow> string \<Rightarrow> string \<Rightarrow> (py_exception + MigrationResult) \<times> 'fs" where
  "rename_namespace_block os fs file_abs file_path old_namespace new_namespace =
     (case io_read_text os fs file_abs ''utf-8'' of
        Inl e \<Rightarrow> (Inl e, fs)
      | Inr content \<Rightarrow>
          (case re_sub os (keyword_rx ''namespace'' old_namespace)
                  (''namespace '' @ new_namespace) content of
             Inl e \<Rightarrow> (Inl e, fs)
           | Inr updated1 \<Rightarrow>
               (case re_sub os (keyword_rx ''using'' old_namespace)
                       (''using '' @ new_namespace) updated1 of
                  Inl e \<Rightarrow> (Inl e, fs)
                | Inr updated \<Rightarrow>
                    write_if_changed os fs file_abs content updated
                      (''Renamed namespace in '' @ pypath_str file_path)
                      (''No changes needed in '' @ pypath_str file_path))))"

text \<open>The call of the external tool by \<open>rename_namespace\<close>, when a tool is configured.\<close>

definition cli_update_namespace ::
  "'fs io \<Rightarrow> MigrationEngine \<Rightarrow> 'fs \<Rightarrow> path \<Rightarrow> string \<Rightarrow> string \<Rightarrow> (MigrationResult \<times> 'fs) option" where
  "cli_update_namespace os self fs file_abs old_namespace new_namespace =
     (if cli_path self \<noteq> None
      then Some (call_cli os self fs
                   [''update-namespace'', ''--file'', path_str file_abs,
                    ''--old'', old_namespace, ''--new'', new_namespace])
      else None)"

definition rename_namespace ::
  "'fs io \<Rightarrow> MigrationEngine \<Rightarrow> 'fs \<Rightarrow> pypath \<Rightarrow> string \<Rightarrow> string \<Rightarrow> MigrationResult \<times> 'fs" where
  "rename_namespace os self fs file_path old_namespace new_namespace =
     (let file_abs = path_join (workspace_root self) file_path
      in if \<not> io_exists os fs file_abs
         then (result False (''File does not exist: '' @ pypath_str file_path), fs)
         else if dry_run self
         then (result True (''[DRY RUN] Would rename namespace in '' @ pypath_str file_path), fs)
         else
           (case cli_update_namespace os self fs file_abs old_namespace new_namespace of
              Some (cli_result, fs1) \<Rightarrow>
                if success cli_result then (cli_result, fs1)
                else try_except
                       (rename_namespace_block os fs1 file_abs file_path old_namespace new_namespace)
                       ''Failed to rename namespace: ''
            | None \<Rightarrow>
                try_except
                  (rename_namespace_block os fs file_abs file_path old_namespace new_namespace)
                  ''Failed to rename namespace: ''))"

text \<open>The five operations as one call.\<close>

datatype operation =
  MoveFile pypath pypath
  | MoveFolder pypath pypath
  | UpdateProjectReference pypath string string
  | UpdateSolutionProjectPath pypath string string
  | RenameNamespace pypath string string

fun run_op :: "'fs io \<Rightarrow> MigrationEngine \<Rightarrow> 'fs \<Rightarrow> operation \<Rightarrow> MigrationResult \<times> 'fs" where
  "run_op os self fs (MoveFile s t) = move_file os self fs s t"
| "run_op os self fs (MoveFolder s t) = move_folder os self fs s t"
| "run_op os self fs (UpdateProjectReference p old new) = update_project_reference os self fs p old new"
| "run_op os self fs (UpdateSolutionProjectPath p old new) = update_solution_project_path os self fs p old new"
| "run_op os self fs (RenameNamespace p old new) = rename_namespace os self fs p old new"

section \<open>A filesystem\<close>

text \<open>
  One behaviour of the primitives, for the properties that depend on what a move does: a
  filesystem without links, a map from absolute paths to files and directories. A path
  exists when it is in the map and every proper prefix of it is a directory. Paths are
  in normal form (no \<open>..\<close> component).
\<close>

datatype node = File string | Dir

type_synonym tree_fs = "path \<Rightarrow> node option"

definition ancestors :: "path \<Rightarrow> path list" where
  "ancestors p = (if p = [] then [] else prefixes (butlast p))"

definition tree_exists :: "tree_fs \<Rightarrow> path \<Rightarrow> bool" where
  "tree_exists fs p = (fs p \<noteq> None \<and> list_all (\<lambda>q. fs q = Some Dir) (ancestors p))"

definition tree_is_dir :: "tree_fs \<Rightarrow> path \<Rightarrow> bool" where
  "tree_is_dir fs p = (fs p = Some Dir \<and> tree_exists fs p)"

definition is_file :: "node option \<Rightarrow> bool" where
  "is_file n = (case n of Some (File c) \<Rightarrow> True | _ \<Rightarrow> False)"

text \<open>
  \<open>p.mkdir(parents=True, exist_ok=True)\<close>: the missing directories down to \<open>p\<close> are
  created; a file on the way raises and nothing is created.
\<close>

text \<open>A path as the text of an \<open>OSError\<close> shows it, in single quotes.\<close>

definition quoted :: "string \<Rightarrow> string" where
  "quoted s = [CHR 0x27] @ s @ [CHR 0x27]"

definition tree_mkdir_parents :: "tree_fs \<Rightarrow> path \<Rightarrow> py_exception option \<times> tree_fs" where
  "tree_mkdir_parents fs p =
     (if is_file (fs p) \<and> list_all (\<lambda>q. fs q = Some Dir) (ancestors p)
      then (Some (PyExc ''FileExistsError'' (''[Errno 17] File exists: '' @ quoted (path_str p))), fs)
      else if list_ex (\<lambda>q. is_file (fs q)) (prefixes p)
      then (Some (PyExc ''NotADirectoryError'' (''[Errno 20] Not a directory: '' @ quoted (path_str p))), fs)
      else (None, (\<lambda>x. if prefix x p \<and> fs x = None then Some Dir else fs x)))"

text \<open>
  \<open>shutil.move(src, dst)\<close> onto a destination that does not exist, which is how the
  program calls it: the tree below \<open>src\<close> goes below \<open>dst\<close>. A directory cannot be moved
  into itself, and the parent of the destination must be a directory. (On an existing
  destination the library moves into it or replaces it; here it raises.)
\<close>

definition tree_move :: "tree_fs \<Rightarrow> path \<Rightarrow> path \<Rightarrow> py_exception option \<times> tree_fs" where
  "tree_move fs src dst =
     (if \<not> tree_exists fs src
      then (Some (FileNotFoundError (''[Errno 2] No such file or directory: '' @ quoted (path_str src))), fs)
      else if tree_exists fs dst
      then (Some (PyExc ''Error'' (''Destination path '' @ quoted (path_str dst) @ '' already exists'')), fs)
      else if prefix src dst
      then (Some (PyExc ''Error'' (''Cannot move a directory '' @ quoted (path_str src) @ '' into itself ''
                     @ quoted (path_str dst) @ ''.'')), fs)
      else if \<not> tree_is_dir fs (path_parent dst)
      then (Some (FileNotFoundError (''[Errno 2] No such file or directory: '' @ quoted (path_str dst))), fs)
      else (None, (\<lambda>x. if prefix dst x then fs (src @ drop (length dst) x)
                        else if prefix src x then None
                        else fs x)))"

definition tree_read_text :: "tree_fs \<Rightarrow> path \<Rightarrow> string \<Rightarrow> py_exception + string" where
  "tree_read_text fs p encoding =
     (if \<not> tree_exists fs p
      then Inl (FileNotFoundError (''[Errno 2] No such file or directory: '' @ quoted (path_str p)))
      else (case fs p of
              Some (File c) \<Rightarrow> Inr c
            | _ \<Rightarrow> Inl (PyExc ''IsADirectoryError'' (''[Errno 21] Is a directory: '' @ quoted (path_str p)))))"

definition tree_write_text :: "tree_fs \<Rightarrow> path \<Rightarrow> string \<Rightarrow> py_exception option \<times> tree_fs" where
  "tree_write_text fs p c =
     (if tree_is_dir fs p
      then (Some (PyExc ''IsADirectoryError'' (''[Errno 21] Is a directory: '' @ quoted (path_str p))), fs)
      else if \<not> tree_is_dir fs (path_parent p)
      then (Some (FileNotFoundError (''[Errno 2] No such file or directory: '' @ quoted (path_str p))), fs)
      else (None, fs(p \<mapsto> File c)))"

text \<open>
  The primitives on this filesystem. No XML parser, no external tool and no JSON decoder
  is installed, and every template with a backslash is a bad escape.
\<close>

definition tree_io :: "tree_fs io" where
  "tree_io =
     \<lparr>io_exists = tree_exists,
      io_resolve = (\<lambda>fs p. p),
      io_read_text = tree_read_text,
      io_write_text = tree_write_text,
      io_mkdir_parents = tree_mkdir_parents,
      io_move = tree_move,
      io_et_parse = (\<lambda>fs p. Inl (PyExc ''ParseError'' ''no element found: line 1, column 0'')),
      io_run = (\<lambda>fs cmd cwd.
        (Inl (FileNotFoundError (''[Errno 2] No such file or directory: '' @ quoted (concat (take 1 cmd)))), fs)),
      io_json_loads = (\<lambda>out. None),
      io_re_template = (\<lambda>repl. Inl (PyExc ''error'' ''bad escape'')),
      io_os_name = ''posix''\<rparr>"

text \<open>A workspace \<open>/ws\<close> with a folder \<open>src\<close> holding \<open>a.cs\<close>, and a folder \<open>lib\<close>.\<close>

definition example_fs :: tree_fs where
  "example_fs =
     [[] \<mapsto> Dir, [''ws''] \<mapsto> Dir, [''ws'', ''src''] \<mapsto> Dir, [''ws'', ''lib''] \<mapsto> Dir,
      [''ws'', ''src'', ''a.cs''] \<mapsto> File ''namespace Old;'']"

definition live_engine :: MigrationEngine where
  "live_engine = \<lparr>workspace_root = [''ws''], dry_run = False, cli_path = None\<rparr>"

section \<open>The properties\<close>

subsection \<open>Dry run and live run\<close>

text \<open>
  The preconditions of an operation: the source of a move exists and its target does not;
  the file to rewrite exists.
\<close>

fun failing_precondition :: "'fs io \<Rightarrow> path \<Rightarrow> 'fs \<Rightarrow> operation \<Rightarrow> bool" where
  "failing_precondition os root fs (MoveFile s t) =
     (\<not> io_exists os fs (path_join root s) \<or> io_exists os fs (path_join root t))"
| "failing_precondition os root fs (MoveFolder s t) =
     (\<not> io_exists os fs (path_join root s) \<or> io_exists os fs (path_join root t))"
| "failing_precondition os root fs (UpdateProjectReference p old new) =
     (\<not> io_exists os fs (path_join root p))"
| "failing_precondition os root fs (UpdateSolutionProjectPath p old new) =
     (\<not> io_exists os fs (path_join root p))"
| "failing_precondition os root fs (RenameNamespace p old new) =
     (\<not> io_exists os fs (path_join root p))"

subsection \<open>The two dialects of a build description\<close>

text \<open>
  A file in the SDK dialect has unqualified element names; the same content in the legacy
  dialect has every element name qualified by the MSBuild namespace.
\<close>

fun qualify :: "element \<Rightarrow> element" where
  "qualify (Element t a x cs) = Element (MSBUILD_NS @ t) a x (map qualify cs)"

definition sdk_dialect :: "element \<Rightarrow> bool" where
  "sdk_dialect root = list_all (\<lambda>e. \<not> prefix ''{'' (tag e)) (elem_iter_all root)"

definition sdk_example :: element where
  "sdk_example = Element ''Project'' [(''Sdk'', ''Microsoft.NET.Sdk'')] None
     [Element ''PropertyGroup'' [] None
        [Element ''TargetFramework'' [] (Some '' net8.0 '') [],
         Element ''OutputType'' [] (Some ''Exe'') []],
      Element ''ItemGroup'' [] None
        [Element ''PackageReference'' [(''Include'', ''Newtonsoft.Json'')] None
           [Element ''Version'' [] (Some ''13.0.1'') []]]]"

subsection \<open>Errors inside an operation\<close>

text \<open>
  The \<open>try\<close> block of an operation is reached when its preconditions hold, the engine is
  live and, for \<open>rename_namespace\<close>, no external tool is configured or its call has not
  succeeded. The block then runs on the state that this call has left.
\<close>

fun state_at_block :: "'fs io \<Rightarrow> MigrationEngine \<Rightarrow> 'fs \<Rightarrow> operation \<Rightarrow> 'fs" where
  "state_at_block os self fs (RenameNamespace p old new) =
     (case cli_update_namespace os self fs (path_join (workspace_root self) p) old new of
        Some (cli_result, fs1) \<Rightarrow> fs1
      | None \<Rightarrow> fs)"
| "state_at_block os self fs op = fs"



text \<open>The text that \<open>update_solution_project_path\<close> computes from the text of the file.\<close>

definition solution_updated :: "string \<Rightarrow> string \<Rightarrow> string \<Rightarrow> string" where
  "solution_updated content old_path new_path =
     (let old_normalized = py_replace old_path ''/'' [CHR 0x5C];
          new_normalized = py_replace new_path ''/'' [CHR 0x5C];
          updated = py_replace content old_normalized new_normalized
      in if content = updated
         then py_replace content (py_replace old_path [CHR 0x5C] ''/'')
                (py_replace new_path [CHR 0x5C] ''/'')
         else updated)"

text \<open>
  A library call made inside the \<open>try\<close> block of the operation raises the exception and
  leaves the state: creating the directories or moving; reading the file, expanding one
  of the two replacement templates, or writing the changed text.
\<close>

inductive step_raises ::
  "'fs io \<Rightarrow> MigrationEngine \<Rightarrow> 'fs \<Rightarrow> operation \<Rightarrow> py_exception \<Rightarrow> 'fs \<Rightarrow> bool"
  for os :: "'fs io" and self :: MigrationEngine and fs :: 'fs where
  mkdir_for_file:
    "io_mkdir_parents os fs (path_parent (path_join (workspace_root self) t)) = (Some e, fs')
     \<Longrightarrow> step_raises os self fs (MoveFile s t) e fs'"
| move_of_file:
    "io_mkdir_parents os fs (path_parent (path_join (workspace_root self) t)) = (None, fs1)
     \<Longrightarrow> io_move os fs1 (path_join (workspace_root self) s) (path_join (workspace_root self) t)
           = (Some e, fs')
     \<Longrightarrow> step_raises os self fs (MoveFile s t) e fs'"
| mkdir_for_folder:
    "io_mkdir_parents os fs (path_parent (path_join (workspace_root self) t)) = (Some e, fs')
     \<Longrightarrow> step_raises os self fs (MoveFolder s t) e fs'"
| move_of_folder:
    "io_mkdir_parents os fs (path_parent (path_join (workspace_root self) t)) = (None, fs1)
     \<Longrightarrow> io_move os fs1 (path_join (workspace_root self) s) (path_join (workspace_root self) t)
           = (Some e, fs')
     \<Longrightarrow> step_raises os self fs (MoveFolder s t) e fs'"
| read_of_project:
    "io_read_text os fs (path_join (workspace_root self) p) ''utf-8'' = Inl e
     \<Longrightarrow> step_raises os self fs (UpdateProjectReference p old new) e fs"
| write_of_project:
    "io_read_text os fs (path_join (workspace_root self) p) ''utf-8'' = Inr content
     \<Longrightarrow> content \<noteq> py_replace content old new
     \<Longrightarrow> io_write_text os fs (path_join (workspace_root self) p) (py_replace content old new)
           = (Some e, fs')
     \<Longrightarrow> step_raises os self fs (UpdateProjectReference p old new) e fs'"
| read_of_solution:
    "io_read_text os fs (path_join (workspace_root self) p) ''utf-8'' = Inl e
     \<Longrightarrow> step_raises os self fs (UpdateSolutionProjectPath p old new) e fs"
| write_of_solution:
    "io_read_text os fs (path_join (workspace_root self) p) ''utf-8'' = Inr content
     \<Longrightarrow> content \<noteq> solution_updated content old new
     \<Longrightarrow> io_write_text os fs (path_join (workspace_root self) p) (solution_updated content old new)
           = (Some e, fs')
     \<Longrightarrow> step_raises os self fs (UpdateSolutionProjectPath p old new) e fs'"
| read_of_source:
    "fs0 = state_at_block os self fs (RenameNamespace p old new)
     \<Longrightarrow> io_read_text os fs0 (path_join (workspace_root self) p) ''utf-8'' = Inl e
     \<Longrightarrow> step_raises os self fs (RenameNamespace p old new) e fs0"
| template_of_namespace:
    "fs0 = state_at_block os self fs (RenameNamespace p old new)
     \<Longrightarrow> io_read_text os fs0 (path_join (workspace_root self) p) ''utf-8'' = Inr content
     \<Longrightarrow> re_sub os (keyword_rx ''namespace'' old) (''namespace '' @ new) content = Inl e
     \<Longrightarrow> step_raises os self fs (RenameNamespace p old new) e fs0"
| template_of_using:
    "fs0 = state_at_block os self fs (RenameNamespace p old new)
     \<Longrightarrow> io_read_text os fs0 (path_join (workspace_root self) p) ''utf-8'' = Inr content
     \<Longrightarrow> re_sub os (keyword_rx ''namespace'' old) (''namespace '' @ new) content = Inr updated1
     \<Longrightarrow> re_sub os (keyword_rx ''using'' old) (''using '' @ new) updated1 = Inl e
     \<Longrightarrow> step_raises os self fs (RenameNamespace p old new) e fs0"
| write_of_source:
    "fs0 = state_at_block os self fs (RenameNamespace p old new)
     \<Longrightarrow> io_read_text os fs0 (path_join (workspace_root self) p) ''utf-8'' = Inr content
     \<Longrightarrow> re_sub os (keyword_rx ''namespace'' old) (''namespace '' @ new) content = Inr updated1
     \<Longrightarrow> re_sub os (keyword_rx ''using'' old) (''using '' @ new) updated1 = Inr updated
     \<Longrightarrow> content \<noteq> updated
     \<Longrightarrow> io_write_text os fs0 (path_join (workspace_root self) p) updated = (Some e, fs')
     \<Longrightarrow> step_raises os self fs (RenameNamespace p old new) e fs'"



subsection \<open>The projects of a solution\<close>

text \<open>
  What one match of \<open>PROJECT_PATTERN\<close> contributes when it is not skipped: the project
  with the name, the resolved path and the identifier of the match, if the path resolves.
\<close>

definition project_of_match :: "'fs io \<Rightarrow> 'fs \<Rightarrow> path option \<Rightarrow> rmatch_obj \<Rightarrow> Project option" where
  "project_of_match os fs solution_dir m =
     (case resolve_project_path os fs solution_dir (m_group_str m 3) of
        Inr (Some project_path) \<Rightarrow> Some (new_project (m_group_str m 2) project_path (m_group_str m 4))
      | _ \<Rightarrow> None)"

text \<open>The type identifier of the match is not that of a solution folder, whatever its case.\<close>

definition not_folder :: "rmatch_obj \<Rightarrow> bool" where
  "not_folder m = (py_upper (m_group_str m 1) \<noteq> SOLUTION_FOLDER_GUID)"

text \<open>
  A solution with a folder entry, its identifier in lower case, and one project; the
  folder exists on disk.
\<close>

definition sln_text :: string where
  "sln_text =
     ''Project('' @ [dq] @ ''{2150e333-8fdc-42a3-9474-1a3956d46de8}'' @ [dq] @ '') = ''
       @ [dq] @ ''Docs'' @ [dq] @ '', '' @ [dq] @ ''Docs'' @ [dq] @ '', '' @ [dq] @ ''{A1}'' @ [dq]
       @ [CHR 0x0A]
     @ ''Project('' @ [dq] @ ''{FAE04EC0-301F-11D3-BF4B-00C04F79EFBC}'' @ [dq] @ '') = ''
       @ [dq] @ ''App'' @ [dq] @ '', '' @ [dq] @ ''src'' @ [CHR 0x5C] @ ''App.csproj'' @ [dq] @ '', ''
       @ [dq] @ ''{B2}'' @ [dq]
       @ [CHR 0x0A]"

definition sln_fs :: tree_fs where
  "sln_fs =
     [[] \<mapsto> Dir, [''ws''] \<mapsto> Dir, [''ws'', ''Docs''] \<mapsto> Dir, [''ws'', ''src''] \<mapsto> Dir,
      [''ws'', ''src'', ''App.csproj''] \<mapsto> File ''<Project />'',
      [''ws'', ''app.sln''] \<mapsto> File sln_text]"

subsection \<open>The groups of a pattern\<close>

text \<open>The pattern has no group with this number.\<close>

fun grp_free :: "nat \<Rightarrow> rx \<Rightarrow> bool" where
  "grp_free n (Cls P) = True"
| "grp_free n Bol = True"
| "grp_free n Eps = True"
| "grp_free n (Seq a b) = (grp_free n a \<and> grp_free n b)"
| "grp_free n (Alt a b) = (grp_free n a \<and> grp_free n b)"
| "grp_free n (Opt a) = grp_free n a"
| "grp_free n (Star a) = grp_free n a"
| "grp_free n (Grp k a) = (k \<noteq> n \<and> grp_free n a)"

definition type_keywords :: "string list" where
  "type_keywords = [''class'', ''interface'', ''struct'', ''enum'', ''record'']"

subsection \<open>Renaming a namespace\<close>

text \<open>
  The substitution described as a scan, to compare with the pattern matcher: going
  through the text from the left, where the keyword, a run of whitespace and the old
  namespace stand in sequence, they become the keyword, one space and the new namespace,
  and the scan goes on behind the old namespace, whatever follows it; every other
  character is copied.
\<close>

definition strip_prefix :: "string \<Rightarrow> string \<Rightarrow> string option" where
  "strip_prefix p s = (if prefix p s then Some (drop (length p) s) else None)"

definition strip_occurrence :: "string \<Rightarrow> string \<Rightarrow> string \<Rightarrow> string option" where
  "strip_occurrence kw old s =
     (case strip_prefix kw s of
        None \<Rightarrow> None
      | Some r \<Rightarrow>
          if takeWhile py_isspace r \<noteq> [] then strip_prefix old (dropWhile py_isspace r) else None)"

function rewrite_keyword :: "string \<Rightarrow> string \<Rightarrow> string \<Rightarrow> string \<Rightarrow> string" where
  "rewrite_keyword kw old new s =
     (if s = [] then []
      else (case strip_occurrence kw old s of
              Some rest \<Rightarrow> kw @ '' '' @ new @ rewrite_keyword kw old new rest
            | None \<Rightarrow> hd s # rewrite_keyword kw old new (tl s)))"
  by pat_completeness auto
termination
proof (relation "measure (\<lambda>(kw, old, new, s). length s)")
  show "wf (measure (\<lambda>(kw, old, new, s). length s))" by simp
next
  fix kw old new s :: string
  assume "s \<noteq> []"
  then show "((kw, old, new, tl s), (kw, old, new, s)) \<in> measure (\<lambda>(kw, old, new, s). length s)"
    by (simp add: neq_Nil_conv)
next
  fix kw old new s rest :: string
  assume "strip_occurrence kw old s = Some rest"
  then obtain r where r: "prefix kw s" "r = drop (length kw) s"
    and ws: "takeWhile py_isspace r \<noteq> []"
    and o: "prefix old (dropWhile py_isspace r)"
      "rest = drop (length old) (dropWhile py_isspace r)"
    by (auto simp: strip_occurrence_def strip_prefix_def split: option.splits if_splits)
  have "length (takeWhile py_isspace r) + length (dropWhile py_isspace r) = length r"
    by (metis length_append takeWhile_dropWhile_id)
  then have "length (dropWhile py_isspace r) < length r"
    using ws by (cases "takeWhile py_isspace r") auto
  then have "length rest < length s" using r(2) o(2) by simp
  then show "((kw, old, new, rest), (kw, old, new, s)) \<in> measure (\<lambda>(kw, old, new, s). length s)"
    by simp
qed

declare rewrite_keyword.simps [simp del]

text \<open>No occurrence starts at one of the first \<open>n\<close> positions of the text.\<close>

fun occurrence_free :: "string \<Rightarrow> string \<Rightarrow> nat \<Rightarrow> string \<Rightarrow> bool" where
  "occurrence_free kw old 0 s = True"
| "occurrence_free kw old (Suc n) s =
     (strip_occurrence kw old s = None \<and> occurrence_free kw old n (tl s))"

text \<open>A file that uses and declares a namespace whose name only starts with \<open>Old\<close>.\<close>

definition extra_fs :: tree_fs where
  "extra_fs =
     [[] \<mapsto> Dir, [''ws''] \<mapsto> Dir, [''ws'', ''src''] \<mapsto> Dir,
      [''ws'', ''src'', ''b.cs''] \<mapsto> File (''using OldExtra;'' @ [CHR 0x0A] @ ''namespace OldExtra { }'')]"

section \<open>Dry run and live run agree\<close>

text \<open>
  Claim C1. From any workspace state and for each of the five operations, the dry-run
  engine leaves the filesystem as it was, it succeeds exactly when no precondition fails
  (so it runs every precondition check), and when a precondition fails (missing source,
  existing target, missing file) the live engine returns the same result, message
  included, and the same state as the dry-run engine.
\<close>

theorem dry_run_agrees_with_live_run:
  "snd (run_op os (self\<lparr>dry_run := True\<rparr>) fs op) = fs
   \<and> success (fst (run_op os (self\<lparr>dry_run := True\<rparr>) fs op))
       = (\<not> failing_precondition os (workspace_root self) fs op)
   \<and> (failing_precondition os (workspace_root self) fs op \<longrightarrow>
        run_op os (self\<lparr>dry_run := False\<rparr>) fs op = run_op os (self\<lparr>dry_run := True\<rparr>) fs op)"
proof (cases op)
  case (MoveFile s t)
  then show ?thesis by (simp add: move_file_def Let_def result_def)
next
  case (MoveFolder s t)
  then show ?thesis by (simp add: move_folder_def Let_def result_def)
next
  case (UpdateProjectReference p old new)
  then show ?thesis by (simp add: update_project_reference_def Let_def result_def)
next
  case (UpdateSolutionProjectPath p old new)
  then show ?thesis by (simp add: update_solution_project_path_def Let_def result_def)
next
  case (RenameNamespace p old new)
  then show ?thesis by (simp add: rename_namespace_def Let_def result_def)
qed

theorem dry_run_agrees_with_live_run_witness:
  "failing_precondition tree_io (workspace_root live_engine) example_fs
     (MoveFolder (Rel [''src'']) (Rel [''lib'']))
   \<and> run_op tree_io (live_engine\<lparr>dry_run := False\<rparr>) example_fs (MoveFolder (Rel [''src'']) (Rel [''lib'']))
       = run_op tree_io (live_engine\<lparr>dry_run := True\<rparr>) example_fs (MoveFolder (Rel [''src'']) (Rel [''lib'']))
   \<and> \<not> success (fst (run_op tree_io (live_engine\<lparr>dry_run := True\<rparr>) example_fs
                       (MoveFolder (Rel [''src'']) (Rel [''lib'']))))
   \<and> snd (run_op tree_io (live_engine\<lparr>dry_run := True\<rparr>) example_fs
            (MoveFolder (Rel [''src'']) (Rel [''lib'']))) = example_fs"
proof -
  have h: "failing_precondition tree_io (workspace_root live_engine) example_fs
             (MoveFolder (Rel [''src'']) (Rel [''lib'']))"
    by code_simp
  show ?thesis
    using h dry_run_agrees_with_live_run
      [of tree_io live_engine example_fs "MoveFolder (Rel [''src'']) (Rel [''lib''])"]
    by simp
qed

section \<open>A missing file is reported before a wrong extension\<close>

text \<open>
  Claim C10. For a path that does not exist, \<open>SolutionParser.parse\<close> and
  \<open>ProjectParser.parse\<close> raise \<open>FileNotFoundError\<close>, whatever the extension of the
  path: the existence check comes first.
\<close>

theorem missing_path_is_not_found:
  "\<not> io_exists os fs p \<Longrightarrow>
     SolutionParser_parse os fs p = Inl (FileNotFoundError (''Solution file not found: '' @ path_str p))
     \<and> ProjectParser_parse os fs p = Inl (FileNotFoundError (''Project file not found: '' @ path_str p))"
  by (simp add: SolutionParser_parse_def ProjectParser_parse_def)

theorem missing_path_is_not_found_witness:
  "\<not> io_exists tree_io example_fs [''ws'', ''missing.txt'']
   \<and> SolutionParser_parse tree_io example_fs [''ws'', ''missing.txt'']
       = Inl (FileNotFoundError ''Solution file not found: /ws/missing.txt'')
   \<and> ProjectParser_parse tree_io example_fs [''ws'', ''missing.txt'']
       = Inl (FileNotFoundError ''Project file not found: /ws/missing.txt'')"
proof -
  have h: "\<not> io_exists tree_io example_fs [''ws'', ''missing.txt'']"
    by code_simp
  show ?thesis
    using h missing_path_is_not_found [OF h] by (simp add: path_str_def)
qed

section \<open>Classification of a project\<close>

text \<open>
  Claim C6. Whatever the output kind, a package list holding a package whose lower-cased
  name is \<open>xunit\<close> is classified as a test project: the package rule comes before the
  rules on the output kind.
\<close>

theorem xunit_package_is_test:
  assumes "\<exists>p \<in> set packages. py_lower (pkg_name p) = ''xunit''"
  shows "determine_project_type out_type packages = TEST"
proof -
  from assms obtain p where p: "p \<in> set packages" "py_lower (pkg_name p) = ''xunit''" by blast
  have "''xunit'' \<in> set (map (\<lambda>p. py_lower (pkg_name p)) packages)"
    using p by force
  moreover have "''xunit'' \<in> TEST_PACKAGES" by (simp add: TEST_PACKAGES_def)
  ultimately have "set (map (\<lambda>p. py_lower (pkg_name p)) packages) \<inter> TEST_PACKAGES \<noteq> {}"
    by blast
  then show ?thesis by (simp add: determine_project_type_def Let_def)
qed

theorem xunit_package_is_test_witness:
  "(\<exists>p \<in> set [\<lparr>pkg_name = ''XUnit'', pkg_version = None\<rparr>]. py_lower (pkg_name p) = ''xunit'')
   \<and> determine_project_type (Some ''Exe'') [\<lparr>pkg_name = ''XUnit'', pkg_version = None\<rparr>] = TEST
   \<and> determine_project_type (Some ''Exe'') [] = CONSOLE"
proof -
  have h: "\<exists>p \<in> set [\<lparr>pkg_name = ''XUnit'', pkg_version = None\<rparr>]. py_lower (pkg_name p) = ''xunit''"
    by code_simp
  have c: "determine_project_type (Some ''Exe'') [] = CONSOLE"
    by code_simp
  show ?thesis
    using h c xunit_package_is_test [OF h, of "Some ''Exe''"] by simp
qed

section \<open>The version of a package reference\<close>

text \<open>
  Claim C3. A \<open>PackageReference\<close> element with an \<open>Include\<close> attribute, no \<open>Version\<close>
  attribute and a \<open>Version\<close> child with a text should get that text as its version. In
  the SDK dialect it does not: the child found by \<open>elem.find('Version')\<close> has no children
  of its own, so it is falsy, the \<open>or\<close> goes on to the qualified name, finds nothing, and
  the version stays \<open>None\<close>. The same content with qualified names gets its version.
\<close>

theorem nested_version_of_unqualified_package_is_lost:
  "parse_package_references sdk_example = [\<lparr>pkg_name = ''Newtonsoft.Json'', pkg_version = None\<rparr>]
   \<and> package_references (parse_root tree_io example_fs [''ws'', ''src'', ''App.csproj''] sdk_example)
       = [\<lparr>pkg_name = ''Newtonsoft.Json'', pkg_version = None\<rparr>]
   \<and> parse_package_references (qualify sdk_example)
       = [\<lparr>pkg_name = ''Newtonsoft.Json'', pkg_version = Some ''13.0.1''\<rparr>]"
  by code_simp

theorem nested_version_of_unqualified_package_is_lost_witness:
  "map pkg_version (package_references (parse_root tree_io example_fs [''ws'', ''src'', ''App.csproj''] sdk_example))
     = [None]
   \<and> map pkg_version (parse_package_references (qualify sdk_example)) = [Some ''13.0.1'']"
  using nested_version_of_unqualified_package_is_lost by simp

section \<open>The two dialects give the same properties\<close>

lemma tag_qualify: "tag (qualify e) = MSBUILD_NS @ tag e"
  by (cases e) simp

lemma elem_text_qualify: "elem_text (qualify e) = elem_text e"
  by (cases e) simp

lemma children_qualify: "children (qualify e) = map qualify (children e)"
  by (cases e) simp

lemma elem_iter_all_qualify: "elem_iter_all (qualify e) = map qualify (elem_iter_all e)"
proof (induction e rule: elem_iter_all.induct)
  case (1 t a x cs)
  then have eq: "map (\<lambda>x. elem_iter_all (qualify x)) cs = map (\<lambda>x. map qualify (elem_iter_all x)) cs"
    by simp
  show ?case by (simp add: map_concat comp_def eq)
qed

lemma elem_iter_qualify: "elem_iter (qualify e) (MSBUILD_NS @ t) = map qualify (elem_iter e t)"
  by (simp add: elem_iter_def elem_iter_all_qualify filter_map comp_def tag_qualify)

lemma MSBUILD_NS_brace: "prefix ''{'' (MSBUILD_NS @ t)"
  by (simp add: MSBUILD_NS_def)

lemma elem_iter_qualify_plain:
  assumes "\<not> prefix ''{'' t"
  shows "elem_iter (qualify e) t = []"
proof -
  have "\<And>x. tag (qualify x) \<noteq> t"
    using assms MSBUILD_NS_brace by (metis tag_qualify)
  then show ?thesis
    by (simp add: elem_iter_def elem_iter_all_qualify filter_map comp_def)
qed

lemma elem_iter_sdk:
  assumes "sdk_dialect e"
  shows "elem_iter e (MSBUILD_NS @ t) = []"
proof -
  have "\<And>x. x \<in> set (elem_iter_all e) \<Longrightarrow> tag x \<noteq> MSBUILD_NS @ t"
    using assms MSBUILD_NS_brace by (auto simp: sdk_dialect_def list_all_iff)
  then show ?thesis by (simp add: elem_iter_def filter_empty_conv)
qed

lemma find_qualify:
  "List.find (\<lambda>c. tag c = MSBUILD_NS @ name) (map qualify cs)
     = map_option qualify (List.find (\<lambda>c. tag c = name) cs)"
  by (induction cs) (simp_all add: tag_qualify)

lemma elem_find_qualify:
  "elem_find (qualify g) (MSBUILD_NS @ name) = map_option qualify (elem_find g name)"
  by (simp add: elem_find_def children_qualify find_qualify)

lemma first_property_qualify:
  "first_property (MSBUILD_NS @ name) (map qualify gs) = first_property name gs"
  by (induction gs) (simp_all add: elem_find_qualify elem_text_qualify split: option.splits)

lemma get_property_qualify:
  assumes "sdk_dialect root"
  shows "get_property (qualify root) name = get_property root name"
proof -
  have 1: "elem_iter (qualify root) ''PropertyGroup'' = []"
    by (rule elem_iter_qualify_plain) simp
  have 2: "elem_iter root (MSBUILD_NS @ ''PropertyGroup'') = []"
    using assms by (rule elem_iter_sdk)
  show ?thesis
    by (simp add: get_property_def 1 2 elem_iter_qualify first_property_qualify split: option.splits)
qed

text \<open>
  Claim C4. A build description in the SDK dialect and the same content in the legacy
  dialect give the same stripped value for every property name, and so the same
  \<open>TargetFramework\<close>, \<open>RootNamespace\<close> and \<open>OutputType\<close> in the parsed project.
\<close>

theorem dialects_give_same_properties:
  assumes "sdk_dialect root"
  shows "get_property (qualify root) name = get_property root name
    \<and> target_framework (parse_root os fs p (qualify root)) = target_framework (parse_root os fs p root)
    \<and> root_namespace (parse_root os fs p (qualify root)) = root_namespace (parse_root os fs p root)
    \<and> output_type (parse_root os fs p (qualify root)) = output_type (parse_root os fs p root)"
  using assms by (simp add: parse_root_def Let_def get_property_qualify)

theorem dialects_give_same_properties_witness:
  "sdk_dialect sdk_example
   \<and> get_property (qualify sdk_example) ''TargetFramework'' = Some ''net8.0''
   \<and> get_property sdk_example ''TargetFramework'' = Some ''net8.0''"
proof -
  have h: "sdk_dialect sdk_example" by code_simp
  have v: "get_property sdk_example ''TargetFramework'' = Some ''net8.0''" by code_simp
  show ?thesis
    using h v dialects_give_same_properties [OF h, THEN conjunct1, of "''TargetFramework''"] by simp
qed

section \<open>Errors inside an operation become failed results\<close>






section \<open>Repeating a move\<close>

lemma prefix_butlast_mono:
  assumes "prefix xs ys"
  shows "prefix (butlast xs) (butlast ys)"
proof -
  from assms obtain zs where ys: "ys = xs @ zs" by (auto simp: prefix_def)
  show ?thesis
  proof (cases "zs = []")
    case True
    then show ?thesis using ys by simp
  next
    case False
    then have "butlast ys = xs @ butlast zs" using ys by (simp add: butlast_append)
    then show ?thesis by (metis prefix_order.trans prefixeq_butlast prefixI)
  qed
qed

lemma strict_prefix_in_ancestors:
  assumes "prefix dst src" and "dst \<noteq> src"
  shows "dst \<in> set (ancestors src)"
proof -
  from assms obtain zs where ys: "src = dst @ zs" and "zs \<noteq> []" by (auto simp: prefix_def)
  then have "butlast src = dst @ butlast zs" by (simp add: butlast_append)
  then have "prefix dst (butlast src)" by simp
  moreover have "src \<noteq> []" using ys \<open>zs \<noteq> []\<close> by simp
  ultimately show ?thesis by (simp add: ancestors_def in_set_prefixes)
qed

lemma ancestors_mono:
  assumes "prefix dst src"
  shows "set (ancestors dst) \<subseteq> set (ancestors src)"
proof
  fix q assume "q \<in> set (ancestors dst)"
  then have d: "dst \<noteq> []" and q: "prefix q (butlast dst)"
    by (auto simp: ancestors_def in_set_prefixes split: if_splits)
  have "src \<noteq> []" using assms d by auto
  moreover have "prefix q (butlast src)"
    using q prefix_butlast_mono [OF assms] by (rule prefix_order.trans)
  ultimately show "q \<in> set (ancestors src)" by (simp add: ancestors_def in_set_prefixes)
qed

lemma tree_exists_prefix:
  assumes "tree_exists fs src" and "prefix dst src"
  shows "tree_exists fs dst"
proof (cases "dst = src")
  case True
  then show ?thesis using assms by simp
next
  case False
  have all: "\<forall>q \<in> set (ancestors src). fs q = Some Dir"
    using assms(1) by (simp add: tree_exists_def list_all_iff)
  have "fs dst = Some Dir"
    using all strict_prefix_in_ancestors [OF assms(2) False] by blast
  moreover have "\<forall>q \<in> set (ancestors dst). fs q = Some Dir"
    using all ancestors_mono [OF assms(2)] by blast
  ultimately show ?thesis by (simp add: tree_exists_def list_all_iff)
qed

lemma tree_move_removes_source:
  assumes "tree_move fs src dst = (None, fs')"
  shows "\<not> tree_exists fs' src"
proof -
  have ex: "tree_exists fs src" and nex: "\<not> tree_exists fs dst"
    and fs': "fs' = (\<lambda>x. if prefix dst x then fs (src @ drop (length dst) x)
                        else if prefix src x then None else fs x)"
    using assms by (auto simp: tree_move_def split: if_splits)
  have "\<not> prefix dst src"
    using ex nex tree_exists_prefix by blast
  then have "fs' src = None" by (simp add: fs')
  then show ?thesis by (simp add: tree_exists_def)
qed

lemma move_block_removes_source:
  assumes "move_block tree_io fs src dst msg = (Inr r, fs')"
  shows "\<not> tree_exists fs' src"
proof -
  obtain e1 fs1 where m: "tree_mkdir_parents fs (path_parent dst) = (e1, fs1)"
    by (cases "tree_mkdir_parents fs (path_parent dst)")
  obtain e2 fs2 where v: "tree_move fs1 src dst = (e2, fs2)"
    by (cases "tree_move fs1 src dst")
  have "e1 = None \<and> e2 = None \<and> fs2 = fs'"
    using assms m v by (auto simp: move_block_def tree_io_def split: option.splits)
  then show ?thesis using v tree_move_removes_source by blast
qed

text \<open>
  Claim C8, as stated, fails: when the first move fails because the target exists, the
  source is still there and the second, identical move fails for the same reason.
\<close>

theorem repeated_move_onto_existing_target:
  "fst (move_folder tree_io live_engine
          (snd (move_folder tree_io live_engine example_fs (Rel [''src'']) (Rel [''lib''])))
          (Rel [''src'']) (Rel [''lib'']))
     = result False ''Target folder already exists: lib''"
  by code_simp

text \<open>
  Claim C8, amended. On a live engine, when \<open>move_folder\<close> (or \<open>move_file\<close>) has succeeded,
  the same move invoked again on the resulting state fails with the message that the
  source does not exist, and changes nothing.
\<close>

theorem repeated_move_reports_missing_source:
  assumes "\<not> dry_run self"
  shows "(success (fst (move_folder tree_io self fs s t)) \<longrightarrow>
            move_folder tree_io self (snd (move_folder tree_io self fs s t)) s t
              = (result False (''Source folder does not exist: '' @ pypath_str s),
                 snd (move_folder tree_io self fs s t)))
       \<and> (success (fst (move_file tree_io self fs s t)) \<longrightarrow>
            move_file tree_io self (snd (move_file tree_io self fs s t)) s t
              = (result False (''Source file does not exist: '' @ pypath_str s),
                 snd (move_file tree_io self fs s t)))"
proof (intro conjI impI)
  let ?src = "path_join (workspace_root self) s" and ?dst = "path_join (workspace_root self) t"
  let ?msg = "''Moved: '' @ pypath_str s @ '' -> '' @ pypath_str t"
  obtain b fs' where blk: "move_block tree_io fs ?src ?dst ?msg = (b, fs')"
    by (cases "move_block tree_io fs ?src ?dst ?msg")
  {
    assume ok: "success (fst (move_folder tree_io self fs s t))"
    then have eq: "move_folder tree_io self fs s t = try_except (b, fs') ''Failed to move folder: ''"
      using assms blk by (auto simp: move_folder_def Let_def result_def split: if_splits)
    then obtain r where b: "b = Inr r"
      using ok by (cases b) (auto simp: try_except_def result_def)
    have snd: "snd (move_folder tree_io self fs s t) = fs'"
      using eq b by (simp add: try_except_def)
    have "\<not> tree_exists fs' ?src"
      using blk b move_block_removes_source by blast
    then show "move_folder tree_io self (snd (move_folder tree_io self fs s t)) s t
              = (result False (''Source folder does not exist: '' @ pypath_str s),
                 snd (move_folder tree_io self fs s t))"
      unfolding snd by (simp add: move_folder_def Let_def tree_io_def)
  }
  {
    assume ok: "success (fst (move_file tree_io self fs s t))"
    then have eq: "move_file tree_io self fs s t = try_except (b, fs') ''Failed to move file: ''"
      using assms blk by (auto simp: move_file_def Let_def result_def split: if_splits)
    then obtain r where b: "b = Inr r"
      using ok by (cases b) (auto simp: try_except_def result_def)
    have snd: "snd (move_file tree_io self fs s t) = fs'"
      using eq b by (simp add: try_except_def)
    have "\<not> tree_exists fs' ?src"
      using blk b move_block_removes_source by blast
    then show "move_file tree_io self (snd (move_file tree_io self fs s t)) s t
              = (result False (''Source file does not exist: '' @ pypath_str s),
                 snd (move_file tree_io self fs s t))"
      unfolding snd by (simp add: move_file_def Let_def tree_io_def)
  }
qed

theorem repeated_move_reports_missing_source_witness:
  "\<not> dry_run live_engine
   \<and> success (fst (move_folder tree_io live_engine example_fs (Rel [''src'']) (Rel [''lib'', ''core'', ''src''])))
   \<and> fst (move_folder tree_io live_engine
        (snd (move_folder tree_io live_engine example_fs (Rel [''src'']) (Rel [''lib'', ''core'', ''src''])))
        (Rel [''src'']) (Rel [''lib'', ''core'', ''src'']))
      = result False ''Source folder does not exist: src''"
proof -
  have d: "\<not> dry_run live_engine" by (simp add: live_engine_def)
  have ok: "success (fst (move_folder tree_io live_engine example_fs (Rel [''src'']) (Rel [''lib'', ''core'', ''src''])))"
    by code_simp
  show ?thesis
    using d ok repeated_move_reports_missing_source [OF d, of example_fs "Rel [''src'']" "Rel [''lib'', ''core'', ''src'']", THEN conjunct1]
    by (simp add: join_with_def)
qed

section \<open>The projects of a solution\<close>

lemma match_here_start:
  assumes "match_here r bef s = Some a"
  shows "m_start a = length bef"
proof (cases "rmatch r \<lparr>ms_before = bef, ms_rest = s, ms_groups = []\<rparr>")
  case Nil
  then show ?thesis using assms by (simp add: match_here_def)
next
  case (Cons st sts)
  then have "a = \<lparr>m_start = length bef, m_text = take (length s - length (ms_rest st)) s,
                    m_groups = ms_groups st\<rparr>"
    using assms by (simp add: match_here_def)
  then show ?thesis by simp
qed

lemma finditer_from_ordered:
  "sorted_wrt (\<lambda>a b. m_start a < m_start b) (finditer_from r k bef s)
   \<and> (\<forall>m \<in> set (finditer_from r k bef s). length bef \<le> m_start m)"
proof (induction r k bef s rule: finditer_from.induct)
  case (1 r k bef)
  show ?case
  proof (cases "match_here r bef []")
    case None
    then show ?thesis by (simp only: finditer_from.simps option.case if_cancel) simp
  next
    case (Some a)
    have "finditer_from r k bef [] = (if k = 0 then [a] else [])"
      using Some by (simp only: finditer_from.simps option.case)
    then show ?thesis using match_here_start [OF Some] by (cases "k = 0") simp_all
  qed
next
  case (2 r k bef c cs)
  then show ?case by (simp only: finditer_from.simps) auto
next
  case (3 r bef c cs)
  show ?case
  proof (cases "match_here r bef (c # cs)")
    case None
    then have "finditer_from r 0 bef (c # cs) = finditer_from r 0 (c # bef) cs"
      by (simp only: finditer_from.simps option.case)
    then show ?thesis using 3(1) [OF None] by auto
  next
    case (Some a)
    have eq: "finditer_from r 0 bef (c # cs) = a # finditer_from r (length (m_text a) - 1) (c # bef) cs"
      using Some by (simp only: finditer_from.simps option.case)
    have st: "m_start a = length bef" by (rule match_here_start [OF Some])
    show ?thesis using 3(2) [OF Some] st unfolding eq by auto
  qed
qed

lemma finditer_ordered: "sorted_wrt (\<lambda>a b. m_start a < m_start b) (finditer r s)"
  using finditer_from_ordered [of r 0 "[]" s] by (simp add: finditer_def)

lemma parse_projects_loop_char:
  "parse_projects_loop os fs sd ms acc = Inr ps \<Longrightarrow>
     ps = acc @ List.map_filter (project_of_match os fs sd) (filter not_folder ms)"
proof (induction ms arbitrary: acc)
  case Nil
  then show ?case by (simp add: List.map_filter_simps)
next
  case (Cons m ms)
  show ?case
  proof (cases "not_folder m")
    case False
    then show ?thesis using Cons by (simp add: not_folder_def Let_def)
  next
    case True
    show ?thesis
    proof (cases "resolve_project_path os fs sd (m_group_str m 3)")
      case (Inl e)
      then show ?thesis using Cons.prems True by (simp add: not_folder_def Let_def)
    next
      case (Inr r)
      show ?thesis
      proof (cases r)
        case None
        then show ?thesis using Cons True Inr
          by (simp add: not_folder_def Let_def project_of_match_def List.map_filter_simps)
      next
        case (Some pp)
        then have "parse_projects_loop os fs sd ms
                     (acc @ [new_project (m_group_str m 2) pp (m_group_str m 4)]) = Inr ps"
          using Cons.prems True Inr by (simp add: not_folder_def Let_def)
        from Cons.IH [OF this] show ?thesis using True Inr Some
          by (simp add: project_of_match_def List.map_filter_simps)
      qed
    qed
  qed
qed

text \<open>
  Claim C5. The project list that \<open>parse\<close> returns for a solution file is made from the
  matches of the project pattern in the text, leaving out every match whose type
  identifier is, in upper case, the solution-folder identifier (and every match whose
  path does not resolve): no entry comes from a folder match. The matches, and so the
  projects, are in the order of their positions in the text.
\<close>

theorem solution_projects_exclude_folders:
  assumes "SolutionParser_parse os fs sln = Inr sol"
  shows "\<exists>content. io_read_text os fs sln ''utf-8-sig'' = Inr content
     \<and> projects sol = List.map_filter (project_of_match os fs (Some (path_parent sln)))
                        (filter not_folder (finditer PROJECT_PATTERN content))
     \<and> sorted_wrt (\<lambda>a b. m_start a < m_start b) (finditer PROJECT_PATTERN content)"
proof -
  from assms obtain content where c: "io_read_text os fs sln ''utf-8-sig'' = Inr content"
    by (auto simp: SolutionParser_parse_def split: if_splits sum.splits)
  from assms c obtain ps where ps: "parse_projects os fs (Some (path_parent sln)) content = Inr ps"
    and sol: "projects sol = ps"
    by (auto simp: SolutionParser_parse_def split: if_splits sum.splits)
  have "ps = List.map_filter (project_of_match os fs (Some (path_parent sln)))
               (filter not_folder (finditer PROJECT_PATTERN content))"
    using parse_projects_loop_char [of os fs "Some (path_parent sln)" _ "[]" ps] ps
    by (simp add: parse_projects_def)
  then show ?thesis using c sol finditer_ordered by blast
qed

theorem solution_projects_exclude_folders_witness:
  "SolutionParser_parse tree_io sln_fs [''ws'', ''app.sln'']
     = Inr \<lparr>sln_name = ''app'', sln_path = [''ws'', ''app.sln''],
            projects = [new_project ''App'' [''ws'', ''src'', ''App.csproj''] ''B2''], folders = []\<rparr>
   \<and> (\<exists>content. io_read_text tree_io sln_fs [''ws'', ''app.sln''] ''utf-8-sig'' = Inr content
        \<and> [new_project ''App'' [''ws'', ''src'', ''App.csproj''] ''B2'']
            = List.map_filter (project_of_match tree_io sln_fs (Some (path_parent [''ws'', ''app.sln''])))
                (filter not_folder (finditer PROJECT_PATTERN content))
        \<and> sorted_wrt (\<lambda>a b. m_start a < m_start b) (finditer PROJECT_PATTERN content))"
proof -
  have h: "SolutionParser_parse tree_io sln_fs [''ws'', ''app.sln'']
     = Inr \<lparr>sln_name = ''app'', sln_path = [''ws'', ''app.sln''],
            projects = [new_project ''App'' [''ws'', ''src'', ''App.csproj''] ''B2''], folders = []\<rparr>"
    by code_simp
  show ?thesis
    using h solution_projects_exclude_folders [OF h] by simp
qed

section \<open>The visibility of a scanned type\<close>

lemma star_iter_keeps:
  assumes "\<And>st st'. st' \<in> set (f st) \<Longrightarrow> g st' = g st"
  shows "st' \<in> set (star_iter f k st) \<Longrightarrow> g st' = g st"
proof (induction k arbitrary: st)
  case 0
  then show ?case by simp
next
  case (Suc k)
  then show ?case using assms by (fastforce split: if_splits)
qed

lemma grp_free_keeps:
  "grp_free n r \<Longrightarrow> st' \<in> set (rmatch r st) \<Longrightarrow> map_of (ms_groups st') n = map_of (ms_groups st) n"
proof (induction r arbitrary: st st')
  case (Cls P)
  then show ?case by (auto split: list.splits if_splits)
next
  case Bol
  then show ?case by (auto split: list.splits if_splits)
next
  case Eps
  then show ?case by simp
next
  case (Seq a b)
  then show ?case by fastforce
next
  case (Alt a b)
  then show ?case by fastforce
next
  case (Opt a)
  then show ?case by fastforce
next
  case (Star a)
  have "\<And>s s'. s' \<in> set (rmatch a s) \<Longrightarrow> map_of (ms_groups s') n = map_of (ms_groups s) n"
    using Star by simp
  from star_iter_keeps [of "rmatch a" "\<lambda>s. map_of (ms_groups s) n", OF this] Star.prems(2)
  show ?case by simp
next
  case (Grp k a)
  then show ?case by fastforce
qed

lemma rmatch_rx_lit:
  "st' \<in> set (rmatch (rx_lit w) st) \<Longrightarrow> ms_rest st = w @ ms_rest st'"
proof (induction w arbitrary: st)
  case Nil
  then show ?case by (simp add: rx_lit_def)
next
  case (Cons c w)
  from Cons.prems obtain s1 where s1: "s1 \<in> set (rmatch (rx_char c) st)"
    and s2: "st' \<in> set (rmatch (rx_lit w) s1)"
    by (auto simp: rx_lit_def)
  from s1 have "ms_rest st = c # ms_rest s1"
    by (auto simp: rx_char_def split: list.splits if_splits)
  then show ?case using Cons.IH [OF s2] by simp
qed

lemma rmatch_alts_aux:
  "st' \<in> set (rmatch (foldr (\<lambda>w r. Alt (rx_lit w) r) ws (rx_lit l)) st) \<Longrightarrow>
     \<exists>w \<in> set (l # ws). ms_rest st = w @ ms_rest st'"
proof (induction ws)
  case Nil
  then show ?case using rmatch_rx_lit by simp
next
  case (Cons a ws)
  then show ?case using rmatch_rx_lit by auto
qed

lemma rmatch_rx_alts:
  assumes "ws \<noteq> []" and "st' \<in> set (rmatch (rx_alts ws) st)"
  shows "\<exists>w \<in> set ws. ms_rest st = w @ ms_rest st'"
proof -
  obtain l ls where r: "rev ws = l # ls" using assms(1) by (cases "rev ws") auto
  then have "st' \<in> set (rmatch (foldr (\<lambda>w r. Alt (rx_lit w) r) (rev ls) (rx_lit l)) st)"
    using assms(2) by (simp add: rx_alts_def)
  from rmatch_alts_aux [OF this] obtain w where "w \<in> set (l # rev ls)" "ms_rest st = w @ ms_rest st'"
    by blast
  moreover have "set (l # rev ls) = set ws" using r by (metis set_rev set_simps(2) set_rev)
  ultimately show ?thesis by blast
qed

lemma rmatch_grp_alts:
  assumes "ws \<noteq> []" and "st' \<in> set (rmatch (Grp n (rx_alts ws)) st)"
  shows "\<exists>w \<in> set ws. map_of (ms_groups st') n = Some w"
proof -
  from assms(2) obtain s1 where s1: "s1 \<in> set (rmatch (rx_alts ws) st)"
    and st': "st' = s1\<lparr>ms_groups := (n, take (length (ms_rest st) - length (ms_rest s1)) (ms_rest st)) # ms_groups s1\<rparr>"
    by auto
  from rmatch_rx_alts [OF assms(1) s1] obtain w where w: "w \<in> set ws" "ms_rest st = w @ ms_rest s1"
    by blast
  then have "take (length (ms_rest st) - length (ms_rest s1)) (ms_rest st) = w" by simp
  then show ?thesis using w st' by auto
qed

lemma in_rmatch_Seq:
  "st'' \<in> set (rmatch (Seq a b) st) \<longleftrightarrow> (\<exists>st'. st' \<in> set (rmatch a st) \<and> st'' \<in> set (rmatch b st'))"
  by auto

lemma TYPE_PATTERN_group1:
  assumes "st' \<in> set (rmatch TYPE_PATTERN st)"
  shows "\<exists>w \<in> set type_keywords. map_of (ms_groups st') 1 = Some w"
proof -
  define A where "A = Star rx_space"
  define B where "B = Opt (Seq (rx_alts [''public'', ''private'', ''protected'', ''internal'']) (Plus rx_space))"
  define C where "C = Star (Seq (rx_alts [''abstract'', ''sealed'', ''static'', ''partial'']) (Plus rx_space))"
  define P where "P = rx_seq [Plus rx_space,
      Grp 2 (Plus rx_word),
      Opt (rx_seq [rx_char (CHR ''<''), Plus (rx_not (CHR ''>'')), rx_char (CHR ''>'')]),
      Opt (rx_seq [Star rx_space, rx_char (CHR '':''), Star rx_space, Grp 3 (Plus (rx_not (CHR ''{'')))])]"
  have shape: "TYPE_PATTERN = Seq Bol (Seq A (Seq B (Seq C (Seq (Grp 1 (rx_alts type_keywords)) P))))"
    by (simp add: TYPE_PATTERN_def rx_seq_def type_keywords_def A_def B_def C_def P_def)
  from assms obtain s2 s3 where s2: "s2 \<in> set (rmatch (Grp 1 (rx_alts type_keywords)) s3)"
    and s3: "st' \<in> set (rmatch P s2)"
    unfolding shape in_rmatch_Seq by blast
  have "type_keywords \<noteq> []" by (simp add: type_keywords_def)
  from rmatch_grp_alts [OF this s2] obtain w where w: "w \<in> set type_keywords"
    "map_of (ms_groups s2) 1 = Some w" by blast
  have "grp_free 1 P"
    by (simp add: P_def rx_seq_def Plus_def rx_space_def rx_word_def rx_char_def rx_not_def)
  from grp_free_keeps [OF this s3] w show ?thesis by auto
qed

lemma match_here_group1:
  assumes "match_here TYPE_PATTERN bef s = Some m"
  shows "m_group_str m 1 \<in> set type_keywords"
proof -
  from assms obtain st sts where r: "rmatch TYPE_PATTERN \<lparr>ms_before = bef, ms_rest = s, ms_groups = []\<rparr> = st # sts"
    and m: "m_groups m = ms_groups st"
    by (auto simp: match_here_def split: list.splits)
  then have "st \<in> set (rmatch TYPE_PATTERN \<lparr>ms_before = bef, ms_rest = s, ms_groups = []\<rparr>)" by simp
  from TYPE_PATTERN_group1 [OF this] show ?thesis
    using m by (auto simp: m_group_str_def m_group_def)
qed

lemma finditer_from_matches:
  "m \<in> set (finditer_from r k bef s) \<Longrightarrow> \<exists>b t. match_here r b t = Some m"
proof (induction r k bef s rule: finditer_from.induct)
  case (1 r k bef)
  show ?case
  proof (cases "match_here r bef []")
    case None
    then have "finditer_from r k bef [] = []" by (simp only: finditer_from.simps option.case if_cancel)
    then show ?thesis using 1 by (simp only: list.set empty_iff)
  next
    case (Some a)
    then have "finditer_from r k bef [] = (if k = 0 then [a] else [])"
      by (simp only: finditer_from.simps option.case)
    then have "m = a" using 1 by (cases "k = 0") (simp_all only: if_True if_False list.set empty_iff insert_iff simp_thms)
    then show ?thesis using Some by blast
  qed
next
  case (2 r k bef c cs)
  then show ?case by (simp only: finditer_from.simps)
next
  case (3 r bef c cs)
  show ?case
  proof (cases "match_here r bef (c # cs)")
    case None
    then have "finditer_from r 0 bef (c # cs) = finditer_from r 0 (c # bef) cs"
      by (simp only: finditer_from.simps option.case)
    then show ?thesis using 3(1) [OF None] 3(3) by (simp only:)
  next
    case (Some a)
    then have "finditer_from r 0 bef (c # cs) = a # finditer_from r (length (m_text a) - 1) (c # bef) cs"
      by (simp only: finditer_from.simps option.case)
    then have "m = a \<or> m \<in> set (finditer_from r (length (m_text a) - 1) (c # bef) cs)"
      using 3(3) by (simp only: list.set insert_iff)
    then show ?thesis using Some 3(2) [OF Some] by blast
  qed
qed

lemma class_info_total:
  assumes "m \<in> set (finditer TYPE_PATTERN content)"
  shows "\<exists>ci. class_info_of_match content namespace m = Inr ci
           \<and> is_public ci = py_contains ''public'' (m_text m)"
proof -
  from assms finditer_from_matches obtain b t where "match_here TYPE_PATTERN b t = Some m"
    unfolding finditer_def by blast
  from match_here_group1 [OF this] obtain mt where "MemberType_of (py_lower (m_group_str m 1)) = Inr mt"
    by (auto simp: type_keywords_def MemberType_of_def py_lower_def py_lower_char_def py_isupper_char_def)
  then show ?thesis
    by (simp add: class_info_of_match_def Let_def split: prod.splits)
qed

lemma extract_classes_loop_char:
  assumes "\<And>m. m \<in> set ms \<Longrightarrow> \<exists>ci. class_info_of_match content namespace m = Inr ci
           \<and> is_public ci = py_contains ''public'' (m_text m)"
  shows "\<exists>cs. extract_classes_loop content namespace ms acc = Inr cs
     \<and> map is_public cs = map is_public acc @ map (\<lambda>m. py_contains ''public'' (m_text m)) ms"
  using assms
proof (induction ms arbitrary: acc)
  case Nil
  then show ?case by simp
next
  case (Cons m ms)
  from Cons.prems [of m] obtain ci where ci: "class_info_of_match content namespace m = Inr ci"
    "is_public ci = py_contains ''public'' (m_text m)" by auto
  have "\<exists>cs. extract_classes_loop content namespace ms (acc @ [ci]) = Inr cs
     \<and> map is_public cs = map is_public (acc @ [ci]) @ map (\<lambda>m. py_contains ''public'' (m_text m)) ms"
  proof (rule Cons.IH)
    fix m' assume "m' \<in> set ms"
    then show "\<exists>ci. class_info_of_match content namespace m' = Inr ci
           \<and> is_public ci = py_contains ''public'' (m_text m')"
      using Cons.prems [of m'] by simp
  qed
  then show ?case using ci by simp
qed

text \<open>
  The flag is the substring test of the source, \<open>'public' in match_text\<close>, for every
  content, and the extraction never raises.
\<close>

lemma is_public_is_substring_test:
  "\<exists>cs. extract_classes content namespace = Inr cs
     \<and> map is_public cs = map (\<lambda>m. py_contains ''public'' (m_text m)) (finditer TYPE_PATTERN content)"
  using extract_classes_loop_char [of "finditer TYPE_PATTERN content" content namespace "[]"]
    class_info_total
  by (simp add: extract_classes_def)

text \<open>
  Claim C9. The flag \<open>is_public\<close> of a matched declaration should be true exactly when the
  declaration carries the keyword \<open>public\<close>, and a declaration with no access modifier
  should be recorded as not public; the source says the same of itself (\<open># Check
  modifiers\<close>, \<open># Default is internal\<close>). It does not: the test runs over the whole matched
  text, which holds the name and the inheritance clause up to the next brace. A class
  with no modifier whose name contains \<open>public\<close> is recorded as public, and so is an
  \<open>internal\<close> class with the word in a comment behind its base list.
\<close>

theorem unmodified_declaration_recorded_public:
  "finditer TYPE_PATTERN ''class Republic { }''
     = [\<lparr>m_start = 0, m_text = ''class Republic'', m_groups = [(2, ''Republic''), (1, ''class'')]\<rparr>]
   \<and> extract_classes ''class Republic { }'' None
     = Inr [\<lparr>class_name = ''Republic'', class_namespace = None, member_type = CLASS,
             base_class = None, interfaces = [], is_public = True, is_abstract = False,
             is_static = False, is_partial = False, is_sealed = False, line_number = 1,
             tests = []\<rparr>]
   \<and> extract_classes ''internal sealed class Cache : IStore // not public'' None
     = Inr [\<lparr>class_name = ''Cache'', class_namespace = None, member_type = CLASS,
             base_class = None, interfaces = [''IStore // not public''], is_public = True,
             is_abstract = False, is_static = False, is_partial = False, is_sealed = True,
             line_number = 1, tests = []\<rparr>]"
  by code_simp

theorem unmodified_declaration_recorded_public_witness:
  "(case extract_classes ''class Republic { }'' None of
      Inl e \<Rightarrow> [] | Inr cs \<Rightarrow> map is_public cs) = [True]
   \<and> (case extract_classes ''internal sealed class Cache : IStore // not public'' None of
      Inl e \<Rightarrow> [] | Inr cs \<Rightarrow> map is_public cs) = [True]"
  using unmodified_declaration_recorded_public by simp

section \<open>The text substitution of a namespace\<close>

lemma rx_lit_Cons: "rx_lit (c # w) = Seq (rx_char c) (rx_lit w)"
  by (simp add: rx_lit_def)

lemma rmatch_rx_lit_prefix:
  "rmatch (rx_lit w) \<lparr>ms_before = b, ms_rest = w @ r, ms_groups = g\<rparr>
     = [\<lparr>ms_before = rev w @ b, ms_rest = r, ms_groups = g\<rparr>]"
proof (induction w arbitrary: b)
  case Nil
  then show ?case by (simp add: rx_lit_def)
next
  case (Cons c w)
  have "rmatch (rx_char c) \<lparr>ms_before = b, ms_rest = (c # w) @ r, ms_groups = g\<rparr>
      = [\<lparr>ms_before = c # b, ms_rest = w @ r, ms_groups = g\<rparr>]"
    by (simp add: rx_char_def)
  then show ?case using Cons [of "c # b"] by (simp add: rx_lit_Cons)
qed

lemma star_space_greedy:
  "list_all py_isspace ws \<Longrightarrow> r = [] \<or> \<not> py_isspace (hd r) \<Longrightarrow> length (ws @ r) \<le> k \<Longrightarrow>
     \<exists>tl. star_iter (rmatch rx_space) k \<lparr>ms_before = b, ms_rest = ws @ r, ms_groups = g\<rparr>
            = \<lparr>ms_before = rev ws @ b, ms_rest = r, ms_groups = g\<rparr> # tl"
proof (induction ws arbitrary: b k)
  case Nil
  have stop: "rmatch rx_space \<lparr>ms_before = b, ms_rest = r, ms_groups = g\<rparr> = []"
    using Nil(2) by (cases r) (auto simp: rx_space_def)
  show ?case
  proof (cases k)
    case 0
    then show ?thesis by simp
  next
    case (Suc n)
    then show ?thesis using stop by simp
  qed
next
  case (Cons c ws)
  from Cons.prems(3) obtain n where k: "k = Suc n" and n: "length (ws @ r) \<le> n"
    by (cases k) auto
  have sp: "py_isspace c" and rest: "list_all py_isspace ws" using Cons.prems(1) by auto
  have step: "rmatch rx_space \<lparr>ms_before = b, ms_rest = (c # ws) @ r, ms_groups = g\<rparr>
      = [\<lparr>ms_before = c # b, ms_rest = ws @ r, ms_groups = g\<rparr>]"
    using sp by (simp add: rx_space_def)
  from Cons.IH [OF rest Cons.prems(2) n, of "c # b"] obtain tl where
    "star_iter (rmatch rx_space) n \<lparr>ms_before = c # b, ms_rest = ws @ r, ms_groups = g\<rparr>
       = \<lparr>ms_before = rev ws @ c # b, ms_rest = r, ms_groups = g\<rparr> # tl"
    by blast
  then show ?case using step k by simp
qed

lemma plus_space_greedy:
  assumes "ws \<noteq> []" and "list_all py_isspace ws" and "r = [] \<or> \<not> py_isspace (hd r)"
  shows "\<exists>tl. rmatch (Plus rx_space) \<lparr>ms_before = b, ms_rest = ws @ r, ms_groups = g\<rparr>
            = \<lparr>ms_before = rev ws @ b, ms_rest = r, ms_groups = g\<rparr> # tl"
proof -
  from assms(1) obtain c ws' where ws: "ws = c # ws'" by (cases ws) auto
  have sp: "py_isspace c" and rest: "list_all py_isspace ws'" using assms(2) ws by auto
  have step: "rmatch rx_space \<lparr>ms_before = b, ms_rest = ws @ r, ms_groups = g\<rparr>
      = [\<lparr>ms_before = c # b, ms_rest = ws' @ r, ms_groups = g\<rparr>]"
    using sp ws by (simp add: rx_space_def)
  from star_space_greedy [OF rest assms(3) order_refl, of "c # b" g] obtain tl where
    "star_iter (rmatch rx_space) (length (ws' @ r)) \<lparr>ms_before = c # b, ms_rest = ws' @ r, ms_groups = g\<rparr>
       = \<lparr>ms_before = rev ws' @ c # b, ms_rest = r, ms_groups = g\<rparr> # tl"
    by blast
  then show ?thesis using step ws by (simp add: Plus_def)
qed

lemma sub_from_skip:
  "sub_from r f (length xs) bef (xs @ rest) = sub_from r f 0 (rev xs @ bef) rest"
proof (induction xs arbitrary: bef)
  case Nil
  then show ?case by simp
next
  case (Cons x xs)
  then show ?case by simp
qed

lemma star_space_consumes:
  "st' \<in> set (star_iter (rmatch rx_space) k st) \<Longrightarrow>
     \<exists>ws. list_all py_isspace ws \<and> ms_rest st = ws @ ms_rest st'"
proof (induction k arbitrary: st)
  case 0
  then have "st' = st" by simp
  then show ?case by (intro exI [of _ "[]"]) simp
next
  case (Suc k)
  from Suc.prems have "st' = st \<or> (\<exists>s1 \<in> set (rmatch rx_space st). st' \<in> set (star_iter (rmatch rx_space) k s1))"
    by (auto split: if_splits)
  then show ?case
  proof
    assume "st' = st"
    then show ?thesis by (intro exI [of _ "[]"]) simp
  next
    assume "\<exists>s1 \<in> set (rmatch rx_space st). st' \<in> set (star_iter (rmatch rx_space) k s1)"
    then obtain s1 where s1: "s1 \<in> set (rmatch rx_space st)"
      and r: "st' \<in> set (star_iter (rmatch rx_space) k s1)" by blast
    from s1 obtain c where c: "py_isspace c" "ms_rest st = c # ms_rest s1"
      by (auto simp: rx_space_def split: list.splits if_splits)
    from Suc.IH [OF r] obtain ws where "list_all py_isspace ws" "ms_rest s1 = ws @ ms_rest st'"
      by blast
    then show ?thesis using c by (intro exI [of _ "c # ws"]) simp
  qed
qed

lemma plus_space_consumes:
  assumes "st' \<in> set (rmatch (Plus rx_space) st)"
  shows "\<exists>ws. ws \<noteq> [] \<and> list_all py_isspace ws \<and> ms_rest st = ws @ ms_rest st'"
proof -
  from assms obtain s1 where s1: "s1 \<in> set (rmatch rx_space st)"
    and r: "st' \<in> set (star_iter (rmatch rx_space) (length (ms_rest s1)) s1)"
    by (auto simp: Plus_def)
  from s1 obtain c where c: "py_isspace c" "ms_rest st = c # ms_rest s1"
    by (auto simp: rx_space_def split: list.splits if_splits)
  from star_space_consumes [OF r] obtain ws where "list_all py_isspace ws" "ms_rest s1 = ws @ ms_rest st'"
    by blast
  then show ?thesis using c by (intro exI [of _ "c # ws"]) simp
qed

lemma keyword_rx_shape:
  "keyword_rx kw old = Seq (rx_lit kw) (Seq (Plus rx_space) (Seq (rx_lit old) Eps))"
  by (simp add: keyword_rx_def rx_seq_def)

lemma keyword_match_consumes:
  assumes "st' \<in> set (rmatch (keyword_rx kw old) st)"
  shows "\<exists>ws. ws \<noteq> [] \<and> list_all py_isspace ws \<and> ms_rest st = kw @ ws @ old @ ms_rest st'"
proof -
  from assms obtain s1 s2 s3 where s1: "s1 \<in> set (rmatch (rx_lit kw) st)"
    and s2: "s2 \<in> set (rmatch (Plus rx_space) s1)"
    and s3: "s3 \<in> set (rmatch (rx_lit old) s2)"
    and e: "st' \<in> set (rmatch Eps s3)"
    unfolding keyword_rx_shape in_rmatch_Seq by blast
  from e have "st' = s3" by simp
  moreover from plus_space_consumes [OF s2] obtain ws where
    "ws \<noteq> []" "list_all py_isspace ws" "ms_rest s1 = ws @ ms_rest s2" by blast
  ultimately show ?thesis using rmatch_rx_lit [OF s1] rmatch_rx_lit [OF s3] by auto
qed

lemma takeWhile_all: "list_all P ws \<Longrightarrow> takeWhile P (ws @ x) = ws @ takeWhile P x"
  by (induction ws) auto

lemma dropWhile_all: "list_all P ws \<Longrightarrow> dropWhile P (ws @ x) = dropWhile P x"
  by (induction ws) auto

lemma strip_occurrence_found:
  assumes "old = [] \<or> \<not> py_isspace (hd old)" and "ws \<noteq> []" and "list_all py_isspace ws"
  shows "strip_occurrence kw old (kw @ ws @ old @ rest) \<noteq> None"
proof -
  have p: "strip_prefix kw (kw @ ws @ old @ rest) = Some (ws @ old @ rest)"
    by (simp add: strip_prefix_def)
  have t: "takeWhile py_isspace (ws @ old @ rest) \<noteq> []"
    using assms(2,3) by (simp add: takeWhile_all)
  have "prefix old (dropWhile py_isspace (ws @ old @ rest))"
  proof (cases "old = []")
    case True
    then show ?thesis by simp
  next
    case False
    then have "\<not> py_isspace (hd (old @ rest))" using assms(1) by simp
    then have "dropWhile py_isspace (old @ rest) = old @ rest"
      using False by (cases old) auto
    then show ?thesis using assms(3) by (simp add: dropWhile_all)
  qed
  then show ?thesis using p t by (simp add: strip_occurrence_def strip_prefix_def)
qed

lemma strip_occurrence_exact:
  assumes "old \<noteq> []" and "\<not> py_isspace (hd old)" and "ws \<noteq> []" and "list_all py_isspace ws"
  shows "strip_occurrence kw old (kw @ ws @ old @ rest) = Some rest"
proof -
  have p: "strip_prefix kw (kw @ ws @ old @ rest) = Some (ws @ old @ rest)"
    by (simp add: strip_prefix_def)
  have t: "takeWhile py_isspace (ws @ old @ rest) \<noteq> []"
    using assms(3,4) by (simp add: takeWhile_all)
  have "dropWhile py_isspace (old @ rest) = old @ rest"
    using assms(1,2) by (cases old) auto
  then have "dropWhile py_isspace (ws @ old @ rest) = old @ rest"
    using assms(4) by (simp add: dropWhile_all)
  then show ?thesis using p t by (simp add: strip_occurrence_def strip_prefix_def)
qed

lemma match_here_none:
  assumes "old = [] \<or> \<not> py_isspace (hd old)" and "strip_occurrence kw old s = None"
  shows "match_here (keyword_rx kw old) bef s = None"
proof (cases "rmatch (keyword_rx kw old) \<lparr>ms_before = bef, ms_rest = s, ms_groups = []\<rparr>")
  case Nil
  then show ?thesis by (simp add: match_here_def)
next
  case (Cons st sts)
  then have "st \<in> set (rmatch (keyword_rx kw old) \<lparr>ms_before = bef, ms_rest = s, ms_groups = []\<rparr>)"
    by simp
  from keyword_match_consumes [OF this] obtain ws where
    "ws \<noteq> []" "list_all py_isspace ws" "s = kw @ ws @ old @ ms_rest st" by auto
  then show ?thesis using strip_occurrence_found [OF assms(1)] assms(2) by metis
qed

lemma match_here_some:
  assumes "strip_occurrence kw old s = Some rest"
  shows "\<exists>m. match_here (keyword_rx kw old) bef s = Some m \<and> m_text m \<noteq> [] \<and> s = m_text m @ rest"
proof -
  from assms obtain r where r: "strip_prefix kw s = Some r"
    and ws: "takeWhile py_isspace r \<noteq> []"
    and o: "strip_prefix old (dropWhile py_isspace r) = Some rest"
    by (auto simp: strip_occurrence_def split: option.splits if_splits)
  let ?ws = "takeWhile py_isspace r"
  have s: "s = kw @ r" using r by (auto simp: strip_prefix_def prefix_def split: if_splits)
  have d: "dropWhile py_isspace r = old @ rest"
    using o by (auto simp: strip_prefix_def prefix_def split: if_splits)
  have r': "r = ?ws @ old @ rest" using d by (metis takeWhile_dropWhile_id)
  have all: "list_all py_isspace ?ws" by (simp add: list_all_iff) (meson set_takeWhileD)
  have stop: "old @ rest = [] \<or> \<not> py_isspace (hd (old @ rest))"
    using d by (metis hd_dropWhile)
  from plus_space_greedy [OF ws all stop, of "rev kw @ bef" "[]"] obtain tl where
    p: "rmatch (Plus rx_space) \<lparr>ms_before = rev kw @ bef, ms_rest = ?ws @ old @ rest, ms_groups = []\<rparr>
          = \<lparr>ms_before = rev ?ws @ rev kw @ bef, ms_rest = old @ rest, ms_groups = []\<rparr> # tl"
    by blast
  have "\<exists>tl'. rmatch (keyword_rx kw old) \<lparr>ms_before = bef, ms_rest = kw @ ?ws @ old @ rest, ms_groups = []\<rparr>
     = \<lparr>ms_before = rev old @ rev ?ws @ rev kw @ bef, ms_rest = rest, ms_groups = []\<rparr> # tl'"
    by (simp add: keyword_rx_def rx_seq_def rmatch_rx_lit_prefix p del: rmatch.simps(4)
        add: rmatch.simps(4) [of "rx_lit kw"] rmatch.simps(4) [of "Plus rx_space"]
             rmatch.simps(4) [of "rx_lit old"])
  then obtain tl' where "rmatch (keyword_rx kw old) \<lparr>ms_before = bef, ms_rest = s, ms_groups = []\<rparr>
     = \<lparr>ms_before = rev old @ rev ?ws @ rev kw @ bef, ms_rest = rest, ms_groups = []\<rparr> # tl'"
    using s r' by metis
  then have m: "match_here (keyword_rx kw old) bef s
     = Some \<lparr>m_start = length bef, m_text = take (length s - length rest) s, m_groups = []\<rparr>"
    by (simp add: match_here_def)
  have "take (length s - length rest) s = kw @ ?ws @ old"
    using s r' by (metis append.assoc append_eq_conv_conj length_append add_diff_cancel_right')
  then have "take (length s - length rest) s \<noteq> [] \<and> s = take (length s - length rest) s @ rest"
    using ws s r' by (metis append.assoc append_is_Nil_conv)
  then show ?thesis using m by simp
qed

lemma sub_from_rewrites:
  assumes "old = [] \<or> \<not> py_isspace (hd old)"
  shows "sub_from (keyword_rx kw old) (\<lambda>_. kw @ '' '' @ new) 0 bef s = rewrite_keyword kw old new s"
  using assms
proof (induction kw old new s arbitrary: bef rule: rewrite_keyword.induct)
  case (1 kw old new s)
  let ?r = "keyword_rx kw old" and ?f = "\<lambda>_::string. kw @ '' '' @ new"
  note plain = "1.prems"
  show ?case
  proof (cases s)
    case Nil
    have "strip_occurrence kw old [] = None"
      by (simp add: strip_occurrence_def strip_prefix_def)
    from match_here_none [OF plain this, of bef]
    have "sub_from ?r ?f 0 bef [] = []"
      by (simp only: sub_from.simps option.case if_True simp_thms)
    then show ?thesis using Nil by (simp add: rewrite_keyword.simps)
  next
    case (Cons c cs)
    then have ne: "s \<noteq> []" by simp
    show ?thesis
    proof (cases "strip_occurrence kw old s")
      case None
      have "match_here ?r bef (c # cs) = None"
        using match_here_none [OF plain None, of bef] Cons by simp
      then have "sub_from ?r ?f 0 bef (c # cs) = c # sub_from ?r ?f 0 (c # bef) cs"
        by (simp only: sub_from.simps option.case)
      moreover have "sub_from ?r ?f 0 (c # bef) cs = rewrite_keyword kw old new cs"
        using "1.IH"(1) [OF ne None plain, of "c # bef"] Cons by simp
      moreover have "rewrite_keyword kw old new s = c # rewrite_keyword kw old new cs"
        using None Cons by (simp add: rewrite_keyword.simps [of kw old new "c # cs"])
      ultimately show ?thesis using Cons by simp
    next
      case (Some rest)
      from match_here_some [OF Some, of bef] obtain m where
        mh: "match_here ?r bef s = Some m" and mt: "m_text m \<noteq> []" and sm: "s = m_text m @ rest"
        by blast
      from mt sm Cons obtain xs where xs: "m_text m = c # xs" and cs: "cs = xs @ rest"
        by (cases "m_text m") auto
      have mh': "match_here ?r bef (c # cs) = Some m" using mh Cons by simp
      have "sub_from ?r ?f 0 bef (c # cs)
          = (if m_text m = [] then ?f [] @ c # sub_from ?r ?f 0 (c # bef) cs
             else ?f (m_text m) @ sub_from ?r ?f (length (m_text m) - 1) (c # bef) cs)"
        using mh' by (simp only: sub_from.simps option.case)
      then have "sub_from ?r ?f 0 bef (c # cs)
          = (kw @ '' '' @ new) @ sub_from ?r ?f (length xs) (c # bef) (xs @ rest)"
        using xs cs by simp
      also have "\<dots> = (kw @ '' '' @ new) @ sub_from ?r ?f 0 (rev xs @ c # bef) rest"
        by (simp only: sub_from_skip)
      also have "sub_from ?r ?f 0 (rev xs @ c # bef) rest = rewrite_keyword kw old new rest"
        by (rule "1.IH"(2) [OF ne Some plain])
      finally have "sub_from ?r ?f 0 bef (c # cs) = (kw @ '' '' @ new) @ rewrite_keyword kw old new rest" .
      moreover have "rewrite_keyword kw old new s = (kw @ '' '' @ new) @ rewrite_keyword kw old new rest"
        using Some ne by (simp add: rewrite_keyword.simps [of kw old new s])
      ultimately show ?thesis using Cons by simp
    qed
  qed
qed

lemma re_sub_rewrites:
  assumes "old = [] \<or> \<not> py_isspace (hd old)" and "CHR 0x5C \<notin> set (kw @ '' '' @ new)"
  shows "re_sub os (keyword_rx kw old) (kw @ '' '' @ new) s = Inr (rewrite_keyword kw old new s)"
proof -
  have "re_sub os (keyword_rx kw old) (kw @ '' '' @ new) s
          = Inr (sub_from (keyword_rx kw old) (\<lambda>_. kw @ '' '' @ new) 0 [] s)"
    using assms(2) by (simp only: re_sub_def if_False)
  then show ?thesis by (simp only: sub_from_rewrites [OF assms(1)])
qed

lemma rewrite_keyword_copies:
  "occurrence_free kw old (length pre) (pre @ t) \<Longrightarrow>
     rewrite_keyword kw old new (pre @ t) = pre @ rewrite_keyword kw old new t"
proof (induction pre)
  case Nil
  then show ?case by simp
next
  case (Cons c pre)
  then show ?case by (simp add: rewrite_keyword.simps [of kw old new "c # pre @ t"])
qed

lemma rewrite_keyword_at_occurrence:
  assumes "old \<noteq> []" and "\<not> py_isspace (hd old)" and "ws \<noteq> []" and "list_all py_isspace ws"
  shows "rewrite_keyword kw old new (kw @ ws @ old @ rest)
           = kw @ '' '' @ new @ rewrite_keyword kw old new rest"
  using strip_occurrence_exact [OF assms, of kw rest] assms(3)
  by (simp add: rewrite_keyword.simps [of kw old new "kw @ ws @ old @ rest"])

text \<open>
  Claim C2, as stated, fails: the patterns end with the old namespace and ask for no
  boundary behind it. Renaming \<open>Old\<close> to \<open>New\<close> rewrites \<open>using OldExtra;\<close> and
  \<open>namespace OldExtra\<close>.
\<close>

theorem longer_identifier_is_rewritten:
  "fst (rename_namespace tree_io live_engine extra_fs (Rel [''src'', ''b.cs'']) ''Old'' ''New'')
     = result True ''Renamed namespace in src/b.cs''
   \<and> snd (rename_namespace tree_io live_engine extra_fs (Rel [''src'', ''b.cs'']) ''Old'' ''New'')
         [''ws'', ''src'', ''b.cs'']
     = Some (File (''using NewExtra;'' @ [CHR 0x0A] @ ''namespace NewExtra { }''))"
  by code_simp

text \<open>
  Claim C2, amended. For an old namespace that is not empty and does not begin with
  whitespace, and a new one without a backslash, the fallback reads the file, rewrites
  the \<open>namespace\<close> occurrences, then the \<open>using\<close> occurrences of the result, and writes the
  text if it has changed. For each of the two keywords the substitution of the source is
  the scan from the left, and the scan rewrites exactly the occurrences it meets and
  nothing else: the text before the first place where the keyword, a run of whitespace
  and the old namespace stand in sequence is kept as it is, that sequence becomes the
  keyword, one space and the new namespace whatever follows the old namespace, also when
  an identifier goes on there, and the scan goes on behind it; a text with no such place
  is returned unchanged.
\<close>

theorem fallback_rewrites_exactly_the_occurrences:
  assumes "old \<noteq> []" and "\<not> py_isspace (hd old)" and "CHR 0x5C \<notin> set new"
  shows "rename_namespace_block os fs file_abs file_path old new =
           (case io_read_text os fs file_abs ''utf-8'' of
              Inl e \<Rightarrow> (Inl e, fs)
            | Inr content \<Rightarrow>
                write_if_changed os fs file_abs content
                  (rewrite_keyword ''using'' old new (rewrite_keyword ''namespace'' old new content))
                  (''Renamed namespace in '' @ pypath_str file_path)
                  (''No changes needed in '' @ pypath_str file_path))
       \<and> (k = ''namespace'' \<or> k = ''using''
          \<longrightarrow> re_sub os (keyword_rx k old) (k @ '' '' @ new) content
                = Inr (rewrite_keyword k old new content))
       \<and> (ws \<noteq> [] \<and> list_all py_isspace ws
            \<and> occurrence_free kw old (length pre) (pre @ kw @ ws @ old @ rest)
          \<longrightarrow> rewrite_keyword kw old new (pre @ kw @ ws @ old @ rest)
                = pre @ kw @ '' '' @ new @ rewrite_keyword kw old new rest)
       \<and> (occurrence_free kw old (length s) s \<longrightarrow> rewrite_keyword kw old new s = s)"
proof (intro conjI impI)
  have plain: "old = [] \<or> \<not> py_isspace (hd old)" using assms(2) by simp
  have n: "\<And>s. re_sub os (keyword_rx ''namespace'' old) (''namespace '' @ new) s
             = Inr (rewrite_keyword ''namespace'' old new s)"
    using re_sub_rewrites [OF plain, of "''namespace''" new os] assms(3) by simp
  have u: "\<And>s. re_sub os (keyword_rx ''using'' old) (''using '' @ new) s
             = Inr (rewrite_keyword ''using'' old new s)"
    using re_sub_rewrites [OF plain, of "''using''" new os] assms(3) by simp
  show "rename_namespace_block os fs file_abs file_path old new =
           (case io_read_text os fs file_abs ''utf-8'' of
              Inl e \<Rightarrow> (Inl e, fs)
            | Inr content \<Rightarrow>
                write_if_changed os fs file_abs content
                  (rewrite_keyword ''using'' old new (rewrite_keyword ''namespace'' old new content))
                  (''Renamed namespace in '' @ pypath_str file_path)
                  (''No changes needed in '' @ pypath_str file_path))"
    by (simp only: rename_namespace_block_def n u sum.case)
  assume "k = ''namespace'' \<or> k = ''using''"
  then have "CHR 0x5C \<notin> set (k @ '' '' @ new)" using assms(3) by auto
  then show "re_sub os (keyword_rx k old) (k @ '' '' @ new) content
                = Inr (rewrite_keyword k old new content)"
    by (rule re_sub_rewrites [OF plain])
next
  assume a: "ws \<noteq> [] \<and> list_all py_isspace ws
            \<and> occurrence_free kw old (length pre) (pre @ kw @ ws @ old @ rest)"
  then have "rewrite_keyword kw old new (pre @ kw @ ws @ old @ rest)
      = pre @ rewrite_keyword kw old new (kw @ ws @ old @ rest)"
    using rewrite_keyword_copies [of kw old pre "kw @ ws @ old @ rest" new] by blast
  then show "rewrite_keyword kw old new (pre @ kw @ ws @ old @ rest)
                = pre @ kw @ '' '' @ new @ rewrite_keyword kw old new rest"
    using rewrite_keyword_at_occurrence [OF assms(1,2), of ws kw new rest] a by simp
next
  assume "occurrence_free kw old (length s) s"
  then show "rewrite_keyword kw old new s = s"
    using rewrite_keyword_copies [of kw old s "[]" new]
    by (simp add: rewrite_keyword.simps [of _ _ _ "[]"])
qed

theorem fallback_rewrites_exactly_the_occurrences_witness:
  "''Old'' \<noteq> [] \<and> \<not> py_isspace (hd ''Old'') \<and> CHR 0x5C \<notin> set ''New''
   \<and> rename_namespace_block tree_io extra_fs [''ws'', ''src'', ''b.cs''] (Rel [''src'', ''b.cs''])
         ''Old'' ''New''
       = write_if_changed tree_io extra_fs [''ws'', ''src'', ''b.cs'']
           (''using OldExtra;'' @ [CHR 0x0A] @ ''namespace OldExtra { }'')
           (''using NewExtra;'' @ [CHR 0x0A] @ ''namespace NewExtra { }'')
           ''Renamed namespace in src/b.cs'' ''No changes needed in src/b.cs''
   \<and> (''using'' = ''namespace'' \<or> ''using'' = ''using'')
   \<and> re_sub tree_io (keyword_rx ''using'' ''Old'') (''using'' @ '' '' @ ''New'')
         ''using  Old.Utils; using Older;''
       = Inr ''using New.Utils; using Newer;''
   \<and> [CHR 0x09, CHR '' ''] \<noteq> [] \<and> list_all py_isspace [CHR 0x09, CHR '' '']
   \<and> occurrence_free ''namespace'' ''Old'' (length ''using OldExtra; '')
        (''using OldExtra; '' @ ''namespace'' @ [CHR 0x09, CHR '' ''] @ ''Old'' @ ''Extra { }'')
   \<and> rewrite_keyword ''namespace'' ''Old'' ''New''
        (''using OldExtra; '' @ ''namespace'' @ [CHR 0x09, CHR '' ''] @ ''Old'' @ ''Extra { }'')
       = ''using OldExtra; namespace NewExtra { }''
   \<and> occurrence_free ''using'' ''Old'' (length ''class OldThing : usingOld'') ''class OldThing : usingOld''
   \<and> rewrite_keyword ''using'' ''Old'' ''New'' ''class OldThing : usingOld''
       = ''class OldThing : usingOld''"
proof -
  have h1: "''Old'' \<noteq> []" by simp
  have h2: "\<not> py_isspace (hd ''Old'')" by code_simp
  have h3: "CHR 0x5C \<notin> set ''New''" by simp
  have r: "io_read_text tree_io extra_fs [''ws'', ''src'', ''b.cs''] ''utf-8''
             = Inr (''using OldExtra;'' @ [CHR 0x0A] @ ''namespace OldExtra { }'')"
    by code_simp
  have v: "rewrite_keyword ''using'' ''Old'' ''New''
             (rewrite_keyword ''namespace'' ''Old'' ''New''
                (''using OldExtra;'' @ [CHR 0x0A] @ ''namespace OldExtra { }''))
           = ''using NewExtra;'' @ [CHR 0x0A] @ ''namespace NewExtra { }''"
    by code_simp
  have p: "pypath_str (Rel [''src'', ''b.cs'']) = ''src/b.cs''" by code_simp
  have b: "rename_namespace_block tree_io extra_fs [''ws'', ''src'', ''b.cs''] (Rel [''src'', ''b.cs''])
         ''Old'' ''New''
       = write_if_changed tree_io extra_fs [''ws'', ''src'', ''b.cs'']
           (''using OldExtra;'' @ [CHR 0x0A] @ ''namespace OldExtra { }'')
           (''using NewExtra;'' @ [CHR 0x0A] @ ''namespace NewExtra { }'')
           ''Renamed namespace in src/b.cs'' ''No changes needed in src/b.cs''"
    using fallback_rewrites_exactly_the_occurrences [OF h1 h2 h3, THEN conjunct1,
        of tree_io extra_fs "[''ws'', ''src'', ''b.cs'']" "Rel [''src'', ''b.cs'']"]
    by (simp only: r v p sum.case) simp
  have q: "''using'' = ''namespace'' \<or> ''using'' = ''using''" by simp
  have e: "rewrite_keyword ''using'' ''Old'' ''New'' ''using  Old.Utils; using Older;''
             = ''using New.Utils; using Newer;''"
    by code_simp
  have m: "re_sub tree_io (keyword_rx ''using'' ''Old'') (''using'' @ '' '' @ ''New'')
         ''using  Old.Utils; using Older;''
       = Inr ''using New.Utils; using Newer;''"
    using fallback_rewrites_exactly_the_occurrences [where k = "''using''"
          and content = "''using  Old.Utils; using Older;''" and os = tree_io,
        OF h1 h2 h3, THEN conjunct2, THEN conjunct1] q
    by (simp only: e simp_thms)
  have w1: "[CHR 0x09, CHR '' ''] \<noteq> []" by simp
  have w2: "list_all py_isspace [CHR 0x09, CHR '' '']" by code_simp
  have f1: "occurrence_free ''namespace'' ''Old'' (length ''using OldExtra; '')
        (''using OldExtra; '' @ ''namespace'' @ [CHR 0x09, CHR '' ''] @ ''Old'' @ ''Extra { }'')"
    by code_simp
  have t: "rewrite_keyword ''namespace'' ''Old'' ''New'' ''Extra { }'' = ''Extra { }''"
    by code_simp
  have o: "rewrite_keyword ''namespace'' ''Old'' ''New''
        (''using OldExtra; '' @ ''namespace'' @ [CHR 0x09, CHR '' ''] @ ''Old'' @ ''Extra { }'')
       = ''using OldExtra; namespace NewExtra { }''"
    using fallback_rewrites_exactly_the_occurrences [where ws = "[CHR 0x09, CHR '' '']"
          and kw = "''namespace''" and pre = "''using OldExtra; ''" and rest = "''Extra { }''",
        OF h1 h2 h3, THEN conjunct2, THEN conjunct2, THEN conjunct1]
      w1 w2 f1
    by (simp only: t simp_thms) simp
  have f2: "occurrence_free ''using'' ''Old'' (length ''class OldThing : usingOld'')
        ''class OldThing : usingOld''"
    by code_simp
  have k: "rewrite_keyword ''using'' ''Old'' ''New'' ''class OldThing : usingOld''
       = ''class OldThing : usingOld''"
    using fallback_rewrites_exactly_the_occurrences [where kw = "''using''"
          and s = "''class OldThing : usingOld''", OF h1 h2 h3, THEN conjunct2, THEN conjunct2,
        THEN conjunct2] f2
    by simp
  show ?thesis using h1 h2 h3 b q m w1 w2 f1 o f2 k by (intro conjI)
qed

end
